theory Spec2Isabelle
  imports Main "HOL-Library.AList" "HOL-Library.Sublist"
begin

section \<open>Strings and the patterns of the analyser scripts\<close>

text \<open>
  The scripts are Python 2: a \<open>str\<close> is a byte string, modelled as \<open>string\<close>.
  A line read from the capture file keeps its terminator, so a line is a string that
  may end in the newline character.
\<close>

definition newline :: char where
  "newline = CHR 0x0A"

definition is_digit :: "char \<Rightarrow> bool" where
  "is_digit c = (c \<in> set ''0123456789'')"

text \<open>\<open>long(s)\<close> on a string of decimal digits.\<close>

definition long :: "string \<Rightarrow> int" where
  "long s = foldl (\<lambda>n c. 10 * n + (int (of_char c) - 48)) 0 s"

text \<open>
  The regular expressions of the scripts are built from literal characters and the
  wildcard \<open>.\<close>, which matches every character but the newline. \<open>match_pat\<close> matches
  such a sequence at the start of a string and gives back what follows it.
\<close>

datatype pat = Lit char | Dot

definition lits :: "string \<Rightarrow> pat list" where
  "lits s = map Lit s"

fun match_pat :: "pat list \<Rightarrow> string \<Rightarrow> string option" where
  "match_pat [] s = Some s"
| "match_pat (p # ps) [] = None"
| "match_pat (Lit c # ps) (x # xs) = (if x = c then match_pat ps xs else None)"
| "match_pat (Dot # ps) (x # xs) = (if x \<noteq> newline then match_pat ps xs else None)"

text \<open>
  \<open>(\d+)\<close> followed by the pattern \<open>ps\<close>: the group is greedy and backtracks, so the
  longest run of digits after which \<open>ps\<close> matches is taken. The first argument is
  the number of digits still to try; the result is the group and the text after \<open>ps\<close>.
\<close>

fun match_digits_then :: "nat \<Rightarrow> pat list \<Rightarrow> string \<Rightarrow> (string \<times> string) option" where
  "match_digits_then 0 ps s = None"
| "match_digits_then (Suc k) ps s =
     (case match_pat ps (drop (Suc k) s) of
        Some r \<Rightarrow> Some (take (Suc k) s, r)
      | None \<Rightarrow> match_digits_then k ps s)"

definition digits_then :: "pat list \<Rightarrow> string \<Rightarrow> (string \<times> string) option" where
  "digits_then ps s = match_digits_then (length (takeWhile is_digit s)) ps s"

text \<open>\<open>(.*)\<close>: everything up to the newline.\<close>

definition dot_star :: "string \<Rightarrow> string" where
  "dot_star s = takeWhile (\<lambda>c. c \<noteq> newline) s"

text \<open>\<open>sep.join(xs)\<close>.\<close>

fun join :: "string \<Rightarrow> string list \<Rightarrow> string" where
  "join sep [] = []"
| "join sep [x] = x"
| "join sep (x # y # ys) = x @ sep @ join sep (y # ys)"

text \<open>\<open>line.startswith("t")\<close>.\<close>

definition startswith_t :: "string \<Rightarrow> bool" where
  "startswith_t line = (case line of [] \<Rightarrow> False | c # _ \<Rightarrow> c = CHR ''t'')"

text \<open>
  \<open>str.splitlines()\<close> of a byte string: lines end at \<open>\n\<close>, \<open>\r\n\<close> or \<open>\r\<close>, the
  terminators are dropped and a final terminator opens no empty line.
\<close>

fun splitlines_from :: "string \<Rightarrow> string \<Rightarrow> string list" where
  "splitlines_from acc [] = (if acc = [] then [] else [rev acc])"
| "splitlines_from acc (c # cs) =
     (if c = newline then rev acc # splitlines_from [] cs
      else if c = CHR 0x0D then
        (case cs of
           [] \<Rightarrow> [rev acc]
         | d # ds \<Rightarrow> if d = newline then rev acc # splitlines_from [] ds
                     else rev acc # splitlines_from [] cs)
      else splitlines_from (c # acc) cs)"

definition splitlines :: "string \<Rightarrow> string list" where
  "splitlines s = splitlines_from [] s"

section \<open>Result extraction\<close>

text \<open>
  \<open>results\<close> is the dictionary of (image id, text) pairs; an assignment
  \<open>results[k] = v\<close> is \<open>AList.update k v\<close>, a lookup is \<open>map_of\<close>, and \<open>len(results)\<close>
  is the length of the list.
\<close>

record scan_state =
  results :: "(int \<times> string) list"
  image_id :: int
  result :: "string list"

record coloc_state = scan_state +
  extract_result :: bool

subsection \<open>Colocalisation\_Analyser.extract\_results\<close>

text \<open>\<open>re.match("(\d+).ome.tif,(.*)", line)\<close>, giving \<open>(long(m.group(1)), m.group(2))\<close>.\<close>

definition coloc_row :: "string \<Rightarrow> (int \<times> string) option" where
  "coloc_row line =
     (case digits_then (Dot # lits ''ome'' @ Dot # lits ''tif,'') line of
        None \<Rightarrow> None
      | Some (ds, r) \<Rightarrow> Some (long ds, dot_star r))"

text \<open>\<open>re.match("Image,(p,Method.*)", line)\<close>, giving \<open>m.group(1)\<close>.\<close>

definition coloc_header :: "string \<Rightarrow> string option" where
  "coloc_header line =
     (case match_pat (lits ''Image,p,Method'') line of
        None \<Rightarrow> None
      | Some r \<Rightarrow> Some (''p,Method'' @ dot_star r))"

text \<open>The body of \<open>if extract_result:\<close>.\<close>

definition coloc_inside :: "string \<Rightarrow> coloc_state \<Rightarrow> coloc_state" where
  "coloc_inside line st =
     (case coloc_row line of
        Some (i, rest) \<Rightarrow> st\<lparr>image_id := i, result := result st @ [rest]\<rparr>
      | None \<Rightarrow>
          st\<lparr>results := AList.update (image_id st) (join [newline] (result st)) (results st),
             image_id := 0,
             extract_result := False\<rparr>)"

text \<open>The body of \<open>if not extract_result:\<close>.\<close>

definition coloc_outside :: "string \<Rightarrow> coloc_state \<Rightarrow> coloc_state" where
  "coloc_outside line st =
     (case coloc_header line of
        Some cols \<Rightarrow> st\<lparr>result := [cols], extract_result := True\<rparr>
      | None \<Rightarrow> st)"

text \<open>One turn of \<open>for line in file:\<close>: the two \<open>if\<close> statements run one after the other.\<close>

definition coloc_step :: "string \<Rightarrow> coloc_state \<Rightarrow> coloc_state" where
  "coloc_step line st =
     (let st1 = (if extract_result st then coloc_inside line st else st)
      in if \<not> extract_result st1 then coloc_outside line st1 else st1)"

definition coloc_init :: coloc_state where
  "coloc_init = \<lparr>results = [], image_id = 0, result = [], extract_result = False\<rparr>"

text \<open>After the loop: \<open>if image_id: results[image_id] = "\n".join(result)\<close>.\<close>

definition coloc_finish :: "coloc_state \<Rightarrow> (int \<times> string) list" where
  "coloc_finish st =
     (if image_id st \<noteq> 0
      then AList.update (image_id st) (join [newline] (result st)) (results st)
      else results st)"

definition extract_results_coloc :: "string list \<Rightarrow> (int \<times> string) list" where
  "extract_results_coloc file = coloc_finish (fold coloc_step file coloc_init)"

subsection \<open>Correlation\_Analyser.extract\_results\<close>

text \<open>
  \<open>re.match("Stack correlation [^ ]* : (\d+).ome.tif", line)\<close>, giving
  \<open>long(m.group(1))\<close>. \<open>[^ ]*\<close> cannot take a space and a space must follow it, so
  it takes exactly the characters before the next space.
\<close>

definition corr_header :: "string \<Rightarrow> int option" where
  "corr_header line =
     (case match_pat (lits ''Stack correlation '') line of
        None \<Rightarrow> None
      | Some r \<Rightarrow>
          (case match_pat (lits '' : '') (dropWhile (\<lambda>c. c \<noteq> CHR '' '') r) of
             None \<Rightarrow> None
           | Some r2 \<Rightarrow>
               (case digits_then (Dot # lits ''ome'' @ Dot # lits ''tif'') r2 of
                  None \<Rightarrow> None
                | Some (ds, _) \<Rightarrow> Some (long ds))))"

text \<open>The body of \<open>if image_id:\<close>.\<close>

definition corr_inside :: "string \<Rightarrow> scan_state \<Rightarrow> scan_state" where
  "corr_inside line st =
     (if startswith_t line then st\<lparr>result := result st @ [line]\<rparr>
      else st\<lparr>results := AList.update (image_id st) (concat (result st)) (results st),
              image_id := 0\<rparr>)"

text \<open>The body of \<open>if not image_id:\<close>.\<close>

definition corr_outside :: "string \<Rightarrow> scan_state \<Rightarrow> scan_state" where
  "corr_outside line st =
     (case corr_header line of
        Some i \<Rightarrow> st\<lparr>image_id := i, result := [line]\<rparr>
      | None \<Rightarrow> st)"

definition corr_step :: "string \<Rightarrow> scan_state \<Rightarrow> scan_state" where
  "corr_step line st =
     (let st1 = (if image_id st \<noteq> 0 then corr_inside line st else st)
      in if image_id st1 = 0 then corr_outside line st1 else st1)"

definition corr_init :: scan_state where
  "corr_init = \<lparr>results = [], image_id = 0, result = []\<rparr>"

definition corr_finish :: "scan_state \<Rightarrow> (int \<times> string) list" where
  "corr_finish st =
     (if image_id st \<noteq> 0
      then AList.update (image_id st) (concat (result st)) (results st)
      else results st)"

definition extract_results_corr :: "string list \<Rightarrow> (int \<times> string) list" where
  "extract_results_corr file = corr_finish (fold corr_step file corr_init)"

text \<open>
  \<open>create_report\<close> reads a block as \<open>result.splitlines()\<close> and reports the lines
  \<open>lines[1:]\<close>: the first line is the header, the others are the data rows.
\<close>

definition data_rows :: "string \<Rightarrow> string list" where
  "data_rows block = tl (splitlines block)"

section \<open>Images, parameters and the collaborators\<close>

text \<open>\<open>str(n)\<close> and \<open>"%d" % n\<close> of an integer.\<close>

fun str_nat :: "nat \<Rightarrow> string" where
  "str_nat n =
     (if n < 10 then [''0123456789'' ! n]
      else str_nat (n div 10) @ [''0123456789'' ! (n mod 10)])"

declare str_nat.simps [simp del]

definition str_int :: "int \<Rightarrow> string" where
  "str_int i = (if i < 0 then ''-'' @ str_nat (nat (- i)) else str_nat (nat i))"

text \<open>
  An image of the gateway, with the getters the scripts call; \<open>getChannels\<close> holds the
  channels' names. An entry of an image list is an \<open>image option\<close>, \<open>None\<close> being
  Python's \<open>None\<close>.
\<close>

record image =
  getId :: int
  getName :: string
  getChannels :: "string list"
  getSizeC :: int
  getSizeZ :: int
  getSizeT :: int

text \<open>
  The script parameters: the keys both scripts share, and the keys of each script.
  \<open>IDs\<close> is \<open>params.get(PARAM_IDS)\<close>, empty when the key is absent;
  \<open>Significance\<close> is the text \<open>"%s"\<close> gives for the float.
\<close>

record params =
  IDs :: "int list"
  Data_Type :: string
  Method :: string
  Upload_results :: bool
  Email_results :: bool
  Email :: "string option"

record coloc_params = params +
  Channel_1 :: string
  Channel_2 :: string
  Channel_3 :: "string option"
  Permutations :: int
  Minimum_shift :: int
  Maximum_shift :: int
  Significance :: string

record corr_params = params +
  Intersect :: bool
  Aggregate_stack :: bool

text \<open>The exceptions a run can end with.\<close>

datatype exn = AttributeError | IndexError | ExportError | OSError | AnnotationError | SMTPError

text \<open>
  What \<open>subprocess.call\<close> does: it raises \<open>OSError\<close>, or ImageJ exits with a code and
  has written the lines of its standard output to the capture file.
\<close>

datatype process = LaunchFailed | Exited int "string list"

text \<open>
  The gateway connection and the operating system, as far as the scripts use them:
  \<open>getObjects\<close> is \<open>conn.getObjects("Image", ids)\<close>, \<open>getDataset\<close> is
  \<open>conn.getObject("Dataset", id)\<close> with the dataset's \<open>listChildren()\<close>, \<open>getObject\<close>
  is \<open>conn.getObject('Image', id)\<close>. The other fields say whether the export of an
  image, the upload of an annotation, the mail and \<open>os.rmdir\<close> go through or raise,
  what ImageJ does with a macro, and which directory \<open>tempfile.mkdtemp\<close> creates.
\<close>

record conn =
  getObjects :: "int list \<Rightarrow> image option list"
  getDataset :: "int \<Rightarrow> image option list option"
  getObject :: "int \<Rightarrow> image option"
  export_succeeds :: "int \<Rightarrow> bool"
  attach_succeeds :: "int \<Rightarrow> bool"
  sendmail_succeeds :: bool
  rmdir_succeeds :: bool
  imagej :: "string \<Rightarrow> process"
  mkdtemp :: string

text \<open>
  The effects of a run, in the order they happen. \<open>Print\<close> is a line on standard
  output and \<open>Stderr\<close> a line on standard error; of the printed lines only the error
  messages are kept. A computation gives its effects and either an exception or a value.
\<close>

datatype event =
    Print string
  | Stderr string
  | Mkdtemp
  | Export int
  | CloseExporter int
  | WriteMacro string
  | Invoke
  | RemoveFiles
  | Attach int string
  | SendMail
  | Rmdir

type_synonym 'a io = "event list \<times> (exn + 'a)"

definition bind_io :: "'a io \<Rightarrow> ('a \<Rightarrow> 'b io) \<Rightarrow> 'b io" where
  "bind_io m f =
     (case m of
        (tr, Inl e) \<Rightarrow> (tr, Inl e)
      | (tr, Inr x) \<Rightarrow> (case f x of (tr', r) \<Rightarrow> (tr @ tr', r)))"

section \<open>Parameter checks\<close>

text \<open>\<open>find_channel_index\<close>: the loop over \<open>enumerate(img.getChannels())\<close>.\<close>

fun find_channel_from :: "nat \<Rightarrow> string list \<Rightarrow> string \<Rightarrow> int" where
  "find_channel_from index [] c = - 1"
| "find_channel_from index (ch # chs) c =
     (if ch = c \<or> str_nat (index + 1) = c then int index
      else find_channel_from (index + 1) chs c)"

definition find_channel_index :: "image \<Rightarrow> string \<Rightarrow> int" where
  "find_channel_index img c = find_channel_from 0 (getChannels img) c"

text \<open>
  \<open>check_parameters\<close> prints a line for each failed check and sets \<open>result\<close> to
  \<open>False\<close>; the state of the loops is the pair of the lines printed so far and \<open>result\<close>.
\<close>

definition channel_error :: "image \<Rightarrow> string \<Rightarrow> string" where
  "channel_error img c =
     ''ERROR: Image '' @ str_int (getId img) @ '': '' @ getName img
       @ '' does not have channel: '' @ c"

definition check_channel :: "image \<Rightarrow> string \<Rightarrow> string list \<times> bool \<Rightarrow> string list \<times> bool" where
  "check_channel img c st =
     (if find_channel_index img c < 0 then (fst st @ [channel_error img c], False) else st)"

definition check_image ::
  "string list \<Rightarrow> image option \<Rightarrow> string list \<times> bool \<Rightarrow> string list \<times> bool" where
  "check_image C img st =
     (case img of None \<Rightarrow> st | Some i \<Rightarrow> fold (check_channel i) C st)"

definition shift_error :: "int \<Rightarrow> int \<Rightarrow> string" where
  "shift_error mx mn =
     ''ERROR: Maximum shift ('' @ str_int mx @ '') is not greater than minimum shift (''
       @ str_int mn @ '')''"

definition selectors :: "coloc_params \<Rightarrow> string list" where
  "selectors p =
     [Channel_1 p, Channel_2 p]
       @ (case Channel_3 p of None \<Rightarrow> [] | Some c \<Rightarrow> if c = [] then [] else [c])"

definition check_parameters_coloc ::
  "image option list \<Rightarrow> coloc_params \<Rightarrow> string list \<times> bool" where
  "check_parameters_coloc images p =
     (let st1 = fold (check_image (selectors p)) images ([], True);
          st2 = (if Maximum_shift p \<le> Minimum_shift p
                 then (fst st1 @ [shift_error (Maximum_shift p) (Minimum_shift p)], False)
                 else st1)
      in if \<not> Upload_results p \<and> \<not> Email_results p
         then (fst st2 @ [''ERROR: No results option selected''], False)
         else st2)"

definition check_parameters_corr ::
  "image option list \<Rightarrow> corr_params \<Rightarrow> string list \<times> bool" where
  "check_parameters_corr images p =
     (if \<not> Upload_results p \<and> \<not> Email_results p
      then ([''ERROR: No results option selected''], False)
      else ([], True))"

section \<open>Export\<close>

text \<open>
  \<open>extract_images\<close>. The export of one image (the exporter's \<open>generateTiff\<close> and the
  loop of \<open>read\<close> calls) is one step of the collaborator: it goes through, or it raises
  and the \<open>finally\<close> block closes the exporter before the exception leaves the function.
\<close>

definition image_file :: "conn \<Rightarrow> image \<Rightarrow> string" where
  "image_file c img = mkdtemp c @ ''/'' @ str_int (getId img) @ ''.ome.tif''"

fun export_each :: "conn \<Rightarrow> image option list \<Rightarrow> string list io" where
  "export_each c [] = ([], Inr [])"
| "export_each c (None # imgs) = export_each c imgs"
| "export_each c (Some img # imgs) =
     (if export_succeeds c (getId img)
      then bind_io ([Export (getId img), CloseExporter (getId img)], Inr ())
             (\<lambda>_. bind_io (export_each c imgs) (\<lambda>names. ([], Inr (image_file c img # names))))
      else ([CloseExporter (getId img)], Inl ExportError))"

definition extract_images :: "conn \<Rightarrow> image option list \<Rightarrow> string list io" where
  "extract_images c images = bind_io ([Mkdtemp], Inr ()) (\<lambda>_. export_each c images)"

section \<open>The macro and the ImageJ process\<close>

definition hyperstack :: "image \<Rightarrow> string" where
  \<open>hyperstack img =
     ''run("Stack to Hyperstack...", "order=xyzct channels='' @ str_int (getSizeC img)
       @ '' slices='' @ str_int (getSizeZ img)
       @ '' frames='' @ str_int (getSizeT img) @ ''");\<newline>''\<close>

definition corr_args :: "corr_params \<Rightarrow> string" where
  "corr_args p =
     join '' '' ([''method='' @ Method p]
       @ (if Intersect p then [''intersect''] else [])
       @ (if Aggregate_stack p then [''aggregate''] else []))"

definition corr_command :: "string \<Rightarrow> image \<Rightarrow> string \<Rightarrow> string" where
  \<open>corr_command name img args =
     ''// Stack correlation analyser macro\<newline>open("'' @ name @ ''");\<newline>''
       @ hyperstack img
       @ ''run("Stack Correlation Analyser", "'' @ args @ ''");\<newline>close();\<newline>''\<close>

text \<open>
  The loop \<open>for i, name in enumerate(image_names): img = images[i]\<close> of the
  correlation script, from index \<open>i\<close> on. \<open>images[i]\<close> raises \<open>IndexError\<close> past the
  end of the list, and a getter called on \<open>None\<close> raises \<open>AttributeError\<close>.
\<close>

fun corr_blocks :: "image option list \<Rightarrow> string \<Rightarrow> nat \<Rightarrow> string list \<Rightarrow> exn + string list" where
  "corr_blocks images args i [] = Inr []"
| "corr_blocks images args i (name # names) =
     (if length images \<le> i then Inl IndexError
      else case images ! i of
          None \<Rightarrow> Inl AttributeError
        | Some img \<Rightarrow>
            (case corr_blocks images args (i + 1) names of
               Inl e \<Rightarrow> Inl e
             | Inr bs \<Rightarrow> Inr (corr_command name img args # bs)))"

definition corr_macro :: "image option list \<Rightarrow> corr_params \<Rightarrow> string list \<Rightarrow> exn + string list" where
  "corr_macro images p image_names = corr_blocks images (corr_args p) 0 image_names"

definition coloc_args :: "coloc_params \<Rightarrow> string" where
  "coloc_args p =
     join '' '' [''log_results'',
       ''method='' @ Method p,
       ''permutations='' @ str_int (Permutations p),
       ''minimum_shift='' @ str_int (Minimum_shift p),
       ''maximum_shift='' @ str_int (Maximum_shift p),
       ''significance='' @ Significance p]"

definition coloc_channels :: "int \<Rightarrow> int \<Rightarrow> int \<Rightarrow> string" where
  "coloc_channels c1 c2 c3 =
     ''channel_1='' @ str_int (c1 + 1) @ '' channel_2='' @ str_int (c2 + 1)
       @ '' channel_3='' @ (if c3 \<ge> 0 then str_int (c3 + 1) else ''[None]'')"

definition coloc_command :: "string \<Rightarrow> image \<Rightarrow> string \<Rightarrow> string \<Rightarrow> string" where
  \<open>coloc_command name img args channels =
     ''// Stack colocalisation analyser macro\<newline>open("'' @ name @ ''");\<newline>''
       @ hyperstack img
       @ ''run("Stack Colocalisation Analyser", "'' @ args @ '' '' @ channels
       @ ''");\<newline>close();\<newline>''\<close>

text \<open>
  The same loop in the colocalisation script; \<open>c3\<close> is set to \<open>-1\<close> before the loop
  and keeps its value from one image to the next.
\<close>

fun coloc_blocks ::
  "image option list \<Rightarrow> coloc_params \<Rightarrow> int \<Rightarrow> nat \<Rightarrow> string list \<Rightarrow> exn + string list" where
  "coloc_blocks images p c3 i [] = Inr []"
| "coloc_blocks images p c3 i (name # names) =
     (if length images \<le> i then Inl IndexError
      else case images ! i of
          None \<Rightarrow> Inl AttributeError
        | Some img \<Rightarrow>
            (let c1 = find_channel_index img (Channel_1 p);
                 c2 = find_channel_index img (Channel_2 p);
                 c3' = (case Channel_3 p of
                          None \<Rightarrow> c3
                        | Some c \<Rightarrow> if c = [] then c3 else find_channel_index img c)
             in case coloc_blocks images p c3' (i + 1) names of
                  Inl e \<Rightarrow> Inl e
                | Inr bs \<Rightarrow>
                    Inr (coloc_command name img (coloc_args p) (coloc_channels c1 c2 c3') # bs)))"

definition coloc_macro ::
  "image option list \<Rightarrow> coloc_params \<Rightarrow> string list \<Rightarrow> exn + string list" where
  "coloc_macro images p image_names = coloc_blocks images p (- 1) 0 image_names"

text \<open>
  \<open>run_imagej\<close>, for the macro and the extraction of either script: nothing is done
  without image names; an exception of the macro loop leaves the function; the
  process is run, a non-zero exit code and a launch error are written to standard
  error and leave the results empty; the removal of the temporary files is attempted in
  every one of these cases and its failure is passed over (\<open>except: pass\<close>).
\<close>

definition run_process :: "(string list \<Rightarrow> (int \<times> string) list) \<Rightarrow> conn \<Rightarrow> string
    \<Rightarrow> event list \<times> (int \<times> string) list" where
  "run_process extract c macro =
     (case imagej c macro of
        LaunchFailed \<Rightarrow> ([Invoke, Stderr ''Execution failed:''], [])
      | Exited code out \<Rightarrow>
          if code \<noteq> 0
          then ([Invoke, Stderr (''Execution failed with code: '' @ str_int code)], [])
          else ([Invoke], extract out))"

definition run_imagej :: "(string list \<Rightarrow> exn + string list)
    \<Rightarrow> (string list \<Rightarrow> (int \<times> string) list) \<Rightarrow> conn \<Rightarrow> string list
    \<Rightarrow> (int \<times> string) list io" where
  "run_imagej macro extract c image_names =
     (if image_names = [] then ([], Inr [])
      else case macro image_names of
          Inl e \<Rightarrow> ([], Inl e)
        | Inr blocks \<Rightarrow>
            (case run_process extract c (concat blocks) of
               (tr, res) \<Rightarrow>
                 ([WriteMacro (concat blocks)] @ tr @ [RemoveFiles], Inr res)))"

section \<open>Distribution and the run\<close>

definition create_result_name_coloc :: "coloc_params \<Rightarrow> string" where
  "create_result_name_coloc p =
     join ''_'' ([''Colocalisation'', Method p, ''Ch'' @ Channel_1 p, ''Ch'' @ Channel_2 p]
       @ (case Channel_3 p of None \<Rightarrow> [] | Some c \<Rightarrow> if c = [] then [] else [''Ch'' @ c]))
     @ ''.csv''"

definition create_result_name_corr :: "corr_params \<Rightarrow> string" where
  "create_result_name_corr p =
     join ''_'' ([''Correlation'', Method p]
       @ (if Intersect p then [''Intersect''] else [])
       @ (if Aggregate_stack p then [''Aggregate''] else []))
     @ ''.csv''"

text \<open>\<open>upload_results\<close>: the loop over the items of \<open>results\<close>.\<close>

fun upload_each :: "conn \<Rightarrow> string \<Rightarrow> (int \<times> string) list \<Rightarrow> unit io" where
  "upload_each c result_name [] = ([], Inr ())"
| "upload_each c result_name ((iid, block) # rs) =
     (case getObject c iid of
        None \<Rightarrow> upload_each c result_name rs
      | Some img \<Rightarrow>
          if attach_succeeds c iid
          then bind_io ([Attach iid (str_int iid @ ''.'' @ result_name)], Inr ())
                 (\<lambda>_. upload_each c result_name rs)
          else ([], Inl AnnotationError))"

definition upload_results ::
  "conn \<Rightarrow> string \<Rightarrow> (int \<times> string) list \<Rightarrow> 'a params_scheme \<Rightarrow> unit io" where
  "upload_results c result_name rs p =
     (if \<not> Upload_results p then ([], Inr ()) else upload_each c result_name rs)"

definition email_results :: "conn \<Rightarrow> 'a params_scheme \<Rightarrow> unit io" where
  "email_results c p =
     (if \<not> Email_results p then ([], Inr ())
      else if sendmail_succeeds c then ([SendMail], Inr ())
      else ([], Inl SMTPError))"

text \<open>The list \<open>images\<close> that \<open>run\<close> builds from the ids.\<close>

definition selected_images :: "conn \<Rightarrow> 'a params_scheme \<Rightarrow> image option list" where
  "selected_images c p =
     (if Data_Type p = ''Image'' then getObjects c (IDs p)
      else concat (map (\<lambda>dsId. case getDataset c dsId of None \<Rightarrow> [] | Some children \<Rightarrow> children)
                     (IDs p)))"

text \<open>
  \<open>run\<close>. The two scripts have the same function but for the functions it calls,
  which are the first four arguments here: \<open>check_parameters\<close>, the macro loop of
  \<open>run_imagej\<close>, \<open>extract_results\<close> and \<open>create_result_name\<close>.
\<close>

definition no_results :: "string list \<Rightarrow> unit io" where
  "no_results image_names =
     (if image_names \<noteq> []
      then ([Print (''ERROR: No results generated for '' @ str_nat (length image_names)
                     @ '' images'')], Inr ())
      else ([], Inr ()))"

text \<open>The branches \<open>if results: ... elif image_names: ...\<close> of \<open>run\<close>.\<close>

definition distribute ::
  "conn \<Rightarrow> string \<Rightarrow> (int \<times> string) list \<Rightarrow> string list \<Rightarrow> 'a params_scheme \<Rightarrow> unit io" where
  "distribute c result_name res image_names p =
     (if res \<noteq> []
      then bind_io (upload_results c result_name res p) (\<lambda>_. email_results c p)
      else no_results image_names)"

definition rmdir :: "conn \<Rightarrow> unit io" where
  "rmdir c = (if rmdir_succeeds c then ([Rmdir], Inr ()) else ([Rmdir], Inl OSError))"

definition run_with ::
  "(image option list \<Rightarrow> 'a params_scheme \<Rightarrow> string list \<times> bool)
    \<Rightarrow> (image option list \<Rightarrow> 'a params_scheme \<Rightarrow> string list \<Rightarrow> exn + string list)
    \<Rightarrow> (string list \<Rightarrow> (int \<times> string) list)
    \<Rightarrow> ('a params_scheme \<Rightarrow> string)
    \<Rightarrow> conn \<Rightarrow> 'a params_scheme \<Rightarrow> int io" where
  "run_with check macro extract result_name c p =
     (if IDs p = [] then ([], Inr (- 1))
      else
        let images = selected_images c p;
            checked = check images p
        in if \<not> snd checked then (map Print (fst checked), Inr (- 1))
           else
             bind_io (map Print (fst checked), Inr ()) (\<lambda>_.
             bind_io (extract_images c images) (\<lambda>image_names.
             bind_io (run_imagej (macro images p) extract c image_names) (\<lambda>res.
             bind_io (distribute c (result_name p) res image_names p) (\<lambda>_.
             bind_io (rmdir c) (\<lambda>_.
             ([], Inr (int (length res)))))))))"

definition run_coloc :: "conn \<Rightarrow> coloc_params \<Rightarrow> int io" where
  "run_coloc =
     run_with check_parameters_coloc coloc_macro extract_results_coloc create_result_name_coloc"

definition run_corr :: "conn \<Rightarrow> corr_params \<Rightarrow> int io" where
  "run_corr =
     run_with check_parameters_corr corr_macro extract_results_corr create_result_name_corr"

section \<open>The e-mail address\<close>

text \<open>
  \<open>validate_email\<close> matches the address against
  \<open>^[a-zA-Z0-9._%-]+@[a-zA-Z0-9._%-]+.[a-zA-Z]{2,6}$\<close>. The expression is a sequence
  of items, each a class of characters taken once, once or more, or between \<open>m\<close> and
  \<open>n\<close> times; \<open>matches\<close> tries every length an item can take, as the backtracking of
  \<open>re\<close> does, and accepts when the whole string is used up.
\<close>

datatype item = Once "char \<Rightarrow> bool" | Many1 "char \<Rightarrow> bool" | Between nat nat "char \<Rightarrow> bool"

fun matches :: "item list \<Rightarrow> string \<Rightarrow> bool" where
  "matches [] s = (s = [])"
| "matches (Once cls # its) s = (case s of [] \<Rightarrow> False | c # cs \<Rightarrow> cls c \<and> matches its cs)"
| "matches (Many1 cls # its) s =
     list_ex (\<lambda>k. matches its (drop k s)) [1 ..< Suc (length (takeWhile cls s))]"
| "matches (Between m n cls # its) s =
     list_ex (\<lambda>k. matches its (drop k s)) [m ..< Suc (min n (length (takeWhile cls s)))]"

definition is_alpha :: "char \<Rightarrow> bool" where
  "is_alpha c = (c \<in> set ''abcdefghijklmnopqrstuvwxyzABCDEFGHIJKLMNOPQRSTUVWXYZ'')"

definition is_address_char :: "char \<Rightarrow> bool" where
  "is_address_char c = (is_alpha c \<or> is_digit c \<or> c \<in> set ''._%-'')"

definition email_pattern :: "item list" where
  "email_pattern =
     [Many1 is_address_char, Once (\<lambda>c. c = CHR ''@''), Many1 is_address_char,
      Once (\<lambda>c. c \<noteq> newline), Between 2 6 is_alpha]"

text \<open>\<open>$\<close> matches at the end of the string and before a newline that ends it.\<close>

definition email_match :: "string \<Rightarrow> bool" where
  "email_match s =
     (matches email_pattern s
      \<or> (s \<noteq> [] \<and> last s = newline \<and> matches email_pattern (butlast s)))"

text \<open>
  \<open>validate_email\<close>: the address of the parameters when there is one, else the address
  of the user's profile (the second argument), else the empty string.
\<close>

definition validate_email :: "'a params_scheme \<Rightarrow> string option \<Rightarrow> bool" where
  "validate_email p profile =
     email_match
       (case Email p of
          Some e \<Rightarrow> if e \<noteq> [] then e else (case profile of Some d \<Rightarrow> d | None \<Rightarrow> [])
        | None \<Rightarrow> (case profile of Some d \<Rightarrow> d | None \<Rightarrow> []))"

section \<open>Invariants of the extraction\<close>

text \<open>Under key \<open>n\<close> the dictionary holds \<open>v\<close>, and the loop is not in a block of \<open>n\<close>.\<close>

definition settled :: "int \<Rightarrow> string \<Rightarrow> 'a scan_state_scheme \<Rightarrow> bool" where
  "settled n v st = (image_id st \<noteq> n \<and> map_of (results st) n = Some v)"

definition coloc_inv :: "coloc_state \<Rightarrow> bool" where
  "coloc_inv st =
     ((\<forall>k b. map_of (results st) k = Some b \<longrightarrow> prefix ''p,Method'' b) \<and>
      (extract_result st \<longrightarrow> (\<exists>c rows. result st = c # rows \<and> prefix ''p,Method'' c)) \<and>
      (image_id st \<noteq> 0 \<longrightarrow> extract_result st))"

text \<open>
  The blocks of a capture file. In the correlation script a block of image \<open>k\<close>
  is a label line of \<open>k\<close> and the lines that follow it and start with \<open>t\<close>, up to the
  end of the file or a line that does not start with \<open>t\<close>; \<open>blk\<close> is the list of the
  block's lines, \<open>post\<close> the lines after it and \<open>b\<close> the text stored for it.
\<close>

definition corr_block_at :: "string list \<Rightarrow> string list \<Rightarrow> int \<Rightarrow> string \<Rightarrow> bool" where
  "corr_block_at blk post k b =
     (\<exists>h rows. blk = h # rows \<and> corr_header h = Some k \<and> k \<noteq> 0
        \<and> list_all startswith_t rows
        \<and> (post = [] \<or> \<not> startswith_t (hd post))
        \<and> b = concat (h # rows))"

definition corr_block_of :: "string list \<Rightarrow> int \<Rightarrow> string \<Rightarrow> bool" where
  "corr_block_of file k b =
     (\<exists>pre blk post. file = pre @ blk @ post \<and> corr_block_at blk post k b)"

text \<open>
  In the colocalisation script a block is a header line and at least one data row
  line after it, up to the end of the file or a line that is no data row; its image
  \<open>k\<close> is the id of its last row, and its text is the column names of the header and
  the data of the rows, joined by newlines.
\<close>

definition coloc_block_at :: "string list \<Rightarrow> string list \<Rightarrow> int \<Rightarrow> string \<Rightarrow> bool" where
  "coloc_block_at blk post k b =
     (\<exists>h cols rows rests. blk = h # rows \<and> coloc_header h = Some cols \<and> rows \<noteq> []
        \<and> list_all2 (\<lambda>l r. \<exists>i. coloc_row l = Some (i, r)) rows rests
        \<and> (\<exists>r. coloc_row (last rows) = Some (k, r))
        \<and> (post = [] \<or> coloc_row (hd post) = None)
        \<and> b = join [newline] (cols # rests))"

definition coloc_block_of :: "string list \<Rightarrow> int \<Rightarrow> string \<Rightarrow> bool" where
  "coloc_block_of file k b =
     (\<exists>pre blk post. file = pre @ blk @ post \<and> coloc_block_at blk post k b)"

text \<open>
  The invariants that tie the state of a loop to the lines \<open>seen\<close> so far: every
  stored entry is a block of \<open>seen\<close> that a later line has closed, and an open
  accumulator holds the lines at the end of \<open>seen\<close>.
\<close>

definition corr_track :: "string list \<Rightarrow> scan_state \<Rightarrow> bool" where
  "corr_track seen st =
     ((\<forall>k b. map_of (results st) k = Some b \<longrightarrow>
         (\<exists>pre blk post. seen = pre @ blk @ post \<and> post \<noteq> [] \<and> corr_block_at blk post k b))
      \<and> (image_id st \<noteq> 0 \<longrightarrow>
           (\<exists>pre. seen = pre @ result st)
           \<and> corr_block_at (result st) [] (image_id st) (concat (result st))))"

definition coloc_open :: "string list \<Rightarrow> coloc_state \<Rightarrow> bool" where
  "coloc_open seen st =
     (\<exists>pre h cols rows rests. seen = pre @ h # rows \<and> coloc_header h = Some cols
        \<and> list_all2 (\<lambda>l r. \<exists>i. coloc_row l = Some (i, r)) rows rests
        \<and> result st = cols # rests
        \<and> (image_id st \<noteq> 0 \<longrightarrow>
             rows \<noteq> [] \<and> (\<exists>r. coloc_row (last rows) = Some (image_id st, r))))"

definition coloc_track :: "string list \<Rightarrow> coloc_state \<Rightarrow> bool" where
  "coloc_track seen st =
     ((\<forall>k b. k \<noteq> 0 \<and> map_of (results st) k = Some b \<longrightarrow>
         (\<exists>pre blk post. seen = pre @ blk @ post \<and> post \<noteq> [] \<and> coloc_block_at blk post k b))
      \<and> (extract_result st \<longrightarrow> coloc_open seen st)
      \<and> (image_id st \<noteq> 0 \<longrightarrow> extract_result st))"

section \<open>What the parameter check prints\<close>

text \<open>The images of a list that are not \<open>None\<close>.\<close>

definition present :: "image option list \<Rightarrow> image list" where
  "present images = List.map_filter (\<lambda>x. x) images"

text \<open>The lines \<open>check_parameters\<close> prints for one entry of the image list.\<close>

definition image_errors :: "string list \<Rightarrow> image option \<Rightarrow> string list" where
  "image_errors C img =
     (case img of
        None \<Rightarrow> []
      | Some i \<Rightarrow> map (channel_error i) (filter (\<lambda>c. find_channel_index i c < 0) C))"

text \<open>No selector of \<open>C\<close> is without a channel in an image of the list.\<close>

definition channels_resolve :: "string list \<Rightarrow> image option list \<Rightarrow> bool" where
  "channels_resolve C images =
     list_all (\<lambda>img. list_all (\<lambda>c. \<not> find_channel_index img c < 0) C) (present images)"

section \<open>Inputs for the examples\<close>

text \<open>What \<open>extract_images\<close> does for one image whose export goes through.\<close>

definition exported :: "image \<Rightarrow> event list" where
  "exported img = [Export (getId img), CloseExporter (getId img)]"

text \<open>An image with the given id and channel names, one slice and one frame.\<close>

definition example_image :: "int \<Rightarrow> string list \<Rightarrow> image" where
  "example_image i chs =
     \<lparr>getId = i, getName = ''a.tif'', getChannels = chs,
      getSizeC = int (length chs), getSizeZ = 1, getSizeT = 1\<rparr>"

text \<open>
  A connection whose image list is \<open>images\<close> for every id list and which knows no
  dataset; the export raises for the ids in \<open>unreadable\<close>, ImageJ does \<open>proc\<close> for
  every macro, uploads and mail go through, and \<open>os.rmdir\<close> goes through iff \<open>rm\<close>.
\<close>

definition example_conn :: "image option list \<Rightarrow> int list \<Rightarrow> process \<Rightarrow> bool \<Rightarrow> conn" where
  "example_conn images unreadable proc rm =
     \<lparr>getObjects = (\<lambda>ids. images),
      getDataset = (\<lambda>dsId. None),
      getObject = (\<lambda>i. find (\<lambda>img. getId img = i) (present images)),
      export_succeeds = (\<lambda>i. i \<notin> set unreadable),
      attach_succeeds = (\<lambda>i. True),
      sendmail_succeeds = True,
      rmdir_succeeds = rm,
      imagej = (\<lambda>macro. proc),
      mkdtemp = ''/tmp/job''\<rparr>"

definition example_coloc_params :: "int list \<Rightarrow> string \<Rightarrow> int \<Rightarrow> int \<Rightarrow> bool \<Rightarrow> coloc_params" where
  "example_coloc_params ids ch1 mn mx upload =
     \<lparr>IDs = ids, Data_Type = ''Image'', Method = ''Otsu'', Upload_results = upload,
      Email_results = False, Email = None,
      Channel_1 = ch1, Channel_2 = ''2'', Channel_3 = None, Permutations = 100,
      Minimum_shift = mn, Maximum_shift = mx, Significance = ''0.05''\<rparr>"

definition example_corr_params :: "int list \<Rightarrow> bool \<Rightarrow> corr_params" where
  "example_corr_params ids upload =
     \<lparr>IDs = ids, Data_Type = ''Image'', Method = ''Otsu'', Upload_results = upload,
      Email_results = False, Email = None, Intersect = True, Aggregate_stack = True\<rparr>"

text \<open>
  The sample of the ImageJ output that the comment in \<open>extract_results\<close> of the
  colocalisation script gives, with the line terminators.
\<close>

definition sample_output :: "string list" where
  "sample_output =
     [''Stack colocalisation (Otsu) : 1851.ome.tif\<newline>'',
      ''Image,p,Method,Frame,Ch1,Ch2,Ch3,n,Area,M1,Sig,M2,Sig,R,Sig\<newline>'',
      ''3.tif,0.0500,Otsu,1,c1,c2,None,6528,9.96%,0.9460,true,0.9334,true,0.2940,false\<newline>'',
      ''3.tif,0.0500,Otsu,2,c1,c2,None,6374,9.73%,0.9232,true,0.9390,true,0.1977,false\<newline>'']"

section \<open>Properties of the extraction\<close>

lemma coloc_header_not_row: "coloc_header h = Some c \<Longrightarrow> coloc_row h = None"
  by (cases h) (auto simp: coloc_header_def coloc_row_def digits_then_def lits_def is_digit_def
      split: option.splits if_splits)

lemma coloc_header_prefix: "coloc_header h = Some c \<Longrightarrow> prefix ''p,Method'' c"
  by (auto simp: coloc_header_def split: option.splits)

lemma prefix_join: "prefix p c \<Longrightarrow> prefix p (join sep (c # rows))"
  by (cases rows) (auto simp: prefix_def)

lemma coloc_step_header:
  "coloc_header h = Some c \<Longrightarrow>
   extract_result (coloc_step h st) \<and> result (coloc_step h st) = [c]"
  by (simp add: coloc_step_def coloc_inside_def coloc_outside_def coloc_header_not_row Let_def)

lemma coloc_step_row:
  "extract_result st \<Longrightarrow> coloc_row l = Some (n, r) \<Longrightarrow>
   coloc_step l st = st\<lparr>image_id := n, result := result st @ [r]\<rparr>"
  by (simp add: coloc_step_def coloc_inside_def Let_def)

lemma coloc_fold_rows:
  "extract_result st \<Longrightarrow> list_all2 (\<lambda>l r. coloc_row l = Some (n, r)) rows rests \<Longrightarrow>
   fold coloc_step rows st =
     st\<lparr>image_id := (if rows = [] then image_id st else n), result := result st @ rests\<rparr>"
proof (induction rows arbitrary: st rests)
  case Nil
  then show ?case by simp
next
  case (Cons l rows)
  then obtain r rs where rs: "rests = r # rs" "coloc_row l = Some (n, r)"
    "list_all2 (\<lambda>l r. coloc_row l = Some (n, r)) rows rs"
    by (auto simp: list_all2_Cons1)
  show ?case
    using Cons.prems(1) rs Cons.IH[of "st\<lparr>image_id := n, result := result st @ [r]\<rparr>" rs]
    by (simp add: coloc_step_row)
qed

lemma coloc_step_settled:
  "settled n v st \<Longrightarrow> \<forall>r. coloc_row l \<noteq> Some (n, r) \<Longrightarrow> n \<noteq> 0 \<Longrightarrow> settled n v (coloc_step l st)"
  by (auto simp: settled_def coloc_step_def coloc_inside_def coloc_outside_def Let_def update_conv'
      split: option.splits)

lemma coloc_fold_settled:
  "settled n v st \<Longrightarrow> \<forall>l\<in>set ls. \<forall>r. coloc_row l \<noteq> Some (n, r) \<Longrightarrow> n \<noteq> 0 \<Longrightarrow>
   settled n v (fold coloc_step ls st)"
  by (induction ls arbitrary: st) (auto simp: coloc_step_settled)

lemma coloc_finish_settled: "settled n v st \<Longrightarrow> map_of (coloc_finish st) n = Some v"
  by (auto simp: settled_def coloc_finish_def update_conv')

lemma coloc_step_close:
  "extract_result st \<Longrightarrow> image_id st = n \<Longrightarrow> n \<noteq> 0 \<Longrightarrow> coloc_row l = None \<Longrightarrow>
   settled n (join [newline] (result st)) (coloc_step l st)"
  by (auto simp: settled_def coloc_step_def coloc_inside_def coloc_outside_def Let_def update_conv'
      split: option.splits)

lemma coloc_later_block:
  assumes h: "coloc_header h = Some cols"
    and rows: "list_all2 (\<lambda>l r. coloc_row l = Some (n, r)) rows rests" "rows \<noteq> []"
    and n: "n \<noteq> 0"
    and post: "post = [] \<or> coloc_row (hd post) = None"
      "\<forall>l\<in>set post. \<forall>r. coloc_row l \<noteq> Some (n, r)"
  shows "map_of (coloc_finish (fold coloc_step (h # rows @ post) st)) n
         = Some (join [newline] (cols # rests))"
proof -
  define s1 where "s1 = coloc_step h st"
  define s2 where "s2 = fold coloc_step rows s1"
  have s1: "extract_result s1" "result s1 = [cols]"
    using coloc_step_header[OF h, of st] by (simp_all add: s1_def)
  have s2: "extract_result s2" "image_id s2 = n" "result s2 = cols # rests"
    using coloc_fold_rows[OF s1(1) rows(1)] rows(2) s1 by (simp_all add: s2_def)
  show ?thesis
  proof (cases post)
    case Nil
    have "fold coloc_step (h # rows @ post) st = s2"
      by (simp add: Nil s1_def s2_def)
    moreover have "map_of (coloc_finish s2) n = Some (join [newline] (cols # rests))"
      using s2 n by (simp add: coloc_finish_def update_conv')
    ultimately show ?thesis by (simp only:)
  next
    case (Cons l ls)
    with post have l: "coloc_row l = None" "\<forall>l\<in>set ls. \<forall>r. coloc_row l \<noteq> Some (n, r)"
      by auto
    have "settled n (join [newline] (cols # rests)) (coloc_step l s2)"
      using coloc_step_close[OF s2(1) s2(2) n l(1)] s2(3) by simp
    from coloc_fold_settled[OF this l(2) n]
    have "map_of (coloc_finish (fold coloc_step ls (coloc_step l s2))) n
          = Some (join [newline] (cols # rests))"
      by (rule coloc_finish_settled)
    moreover have "fold coloc_step (h # rows @ post) st = fold coloc_step ls (coloc_step l s2)"
      by (simp add: Cons s1_def s2_def)
    ultimately show ?thesis by (simp only:)
  qed
qed

lemma corr_header_not_t: "corr_header h = Some i \<Longrightarrow> \<not> startswith_t h"
  by (cases h) (auto simp: corr_header_def startswith_t_def lits_def split: option.splits if_splits)

lemma corr_step_header:
  "corr_header h = Some n \<Longrightarrow> n \<noteq> 0 \<Longrightarrow>
   image_id (corr_step h st) = n \<and> result (corr_step h st) = [h]"
  by (simp add: corr_step_def corr_inside_def corr_outside_def corr_header_not_t Let_def)

lemma corr_fold_rows:
  "image_id st \<noteq> 0 \<Longrightarrow> list_all startswith_t rows \<Longrightarrow>
   fold corr_step rows st = st\<lparr>result := result st @ rows\<rparr>"
  by (induction rows arbitrary: st) (simp_all add: corr_step_def corr_inside_def Let_def)

lemma corr_step_settled:
  "settled n v st \<Longrightarrow> corr_header l \<noteq> Some n \<Longrightarrow> n \<noteq> 0 \<Longrightarrow> settled n v (corr_step l st)"
  by (auto simp: settled_def corr_step_def corr_inside_def corr_outside_def Let_def update_conv'
      split: option.splits)

lemma corr_fold_settled:
  "settled n v st \<Longrightarrow> \<forall>l\<in>set ls. corr_header l \<noteq> Some n \<Longrightarrow> n \<noteq> 0 \<Longrightarrow>
   settled n v (fold corr_step ls st)"
  by (induction ls arbitrary: st) (auto simp: corr_step_settled)

lemma corr_finish_settled: "settled n v st \<Longrightarrow> map_of (corr_finish st) n = Some v"
  by (auto simp: settled_def corr_finish_def update_conv')

lemma corr_step_close:
  "image_id st = n \<Longrightarrow> n \<noteq> 0 \<Longrightarrow> \<not> startswith_t l \<Longrightarrow> corr_header l \<noteq> Some n \<Longrightarrow>
   settled n (concat (result st)) (corr_step l st)"
  by (auto simp: settled_def corr_step_def corr_inside_def corr_outside_def Let_def update_conv'
      split: option.splits)

lemma corr_later_block:
  assumes h: "corr_header h = Some n" and n: "n \<noteq> 0"
    and rows: "list_all startswith_t rows"
    and post: "post = [] \<or> \<not> startswith_t (hd post)" "\<forall>l\<in>set post. corr_header l \<noteq> Some n"
  shows "map_of (corr_finish (fold corr_step (h # rows @ post) st)) n = Some (concat (h # rows))"
proof -
  define s1 where "s1 = corr_step h st"
  define s2 where "s2 = fold corr_step rows s1"
  have s1: "image_id s1 = n" "result s1 = [h]"
    using corr_step_header[OF h n, of st] by (simp_all add: s1_def)
  have s2: "image_id s2 = n" "result s2 = h # rows"
    using corr_fold_rows[OF _ rows, of s1] s1 n by (simp_all add: s2_def)
  show ?thesis
  proof (cases post)
    case Nil
    have "fold corr_step (h # rows @ post) st = s2"
      by (simp add: Nil s1_def s2_def)
    moreover have "map_of (corr_finish s2) n = Some (concat (h # rows))"
      using s2 n by (simp add: corr_finish_def update_conv')
    ultimately show ?thesis by (simp only:)
  next
    case (Cons l ls)
    with post have l: "\<not> startswith_t l" "corr_header l \<noteq> Some n"
      "\<forall>l\<in>set ls. corr_header l \<noteq> Some n"
      by auto
    have "settled n (concat (h # rows)) (corr_step l s2)"
      using corr_step_close[OF s2(1) n l(1) l(2)] s2(2) by simp
    from corr_fold_settled[OF this l(3) n]
    have "map_of (corr_finish (fold corr_step ls (corr_step l s2))) n = Some (concat (h # rows))"
      by (rule corr_finish_settled)
    moreover have "fold corr_step (h # rows @ post) st = fold corr_step ls (corr_step l s2)"
      by (simp add: Cons s1_def s2_def)
    ultimately show ?thesis by (simp only:)
  qed
qed

lemma coloc_step_distinct:
  "distinct (map fst (results st)) \<Longrightarrow> distinct (map fst (results (coloc_step l st)))"
  by (simp add: coloc_step_def coloc_inside_def coloc_outside_def Let_def distinct_update
      split: option.splits)

lemma coloc_fold_distinct:
  "distinct (map fst (results st)) \<Longrightarrow> distinct (map fst (results (fold coloc_step ls st)))"
  by (induction ls arbitrary: st) (simp_all add: coloc_step_distinct)

lemma corr_step_distinct:
  "distinct (map fst (results st)) \<Longrightarrow> distinct (map fst (results (corr_step l st)))"
  by (simp add: corr_step_def corr_inside_def corr_outside_def Let_def distinct_update
      split: option.splits)

lemma corr_fold_distinct:
  "distinct (map fst (results st)) \<Longrightarrow> distinct (map fst (results (fold corr_step ls st)))"
  by (induction ls arbitrary: st) (simp_all add: corr_step_distinct)

lemma coloc_inv_init: "coloc_inv coloc_init"
  by (simp add: coloc_inv_def coloc_init_def)

lemma coloc_inv_step: "coloc_inv st \<Longrightarrow> coloc_inv (coloc_step l st)"
  unfolding coloc_inv_def coloc_step_def coloc_inside_def coloc_outside_def Let_def
  by (auto simp: update_conv' prefix_join coloc_header_prefix
      split: option.splits if_splits)

lemma coloc_inv_fold: "coloc_inv st \<Longrightarrow> coloc_inv (fold coloc_step ls st)"
  by (induction ls arbitrary: st) (simp_all add: coloc_inv_step)

lemma coloc_inv_finish:
  "coloc_inv st \<Longrightarrow> map_of (coloc_finish st) k = Some b \<Longrightarrow> prefix ''p,Method'' b"
  unfolding coloc_inv_def coloc_finish_def
  by (auto simp: update_conv' prefix_join split: if_splits)

lemma fold_snoc: "fold f (xs @ [x]) s = f x (fold f xs s)"
  by simp

lemma corr_block_at_later:
  "post \<noteq> [] \<Longrightarrow> corr_block_at blk post k b \<Longrightarrow> corr_block_at blk (post @ [l]) k b"
  by (cases post) (auto simp: corr_block_at_def)

lemma corr_closed_later:
  assumes "\<exists>pre blk post. seen = pre @ blk @ post \<and> post \<noteq> [] \<and> corr_block_at blk post k b"
  shows "\<exists>pre blk post. seen @ [l] = pre @ blk @ post \<and> post \<noteq> [] \<and> corr_block_at blk post k b"
proof -
  from assms obtain pre blk post where
    "seen = pre @ blk @ post" "post \<noteq> []" "corr_block_at blk post k b"
    by blast
  then have "seen @ [l] = pre @ blk @ (post @ [l]) \<and> post @ [l] \<noteq> []
      \<and> corr_block_at blk (post @ [l]) k b"
    by (simp add: corr_block_at_later)
  then show ?thesis by blast
qed

lemma corr_open_closes:
  assumes "\<exists>pre. seen = pre @ blk" and "corr_block_at blk [] k b" and "\<not> startswith_t l"
  shows "\<exists>pre blk' post. seen @ [l] = pre @ blk' @ post \<and> post \<noteq> [] \<and> corr_block_at blk' post k b"
proof -
  from assms(1) obtain pre where "seen = pre @ blk" by blast
  then have "seen @ [l] = pre @ blk @ [l] \<and> [l] \<noteq> [] \<and> corr_block_at blk [l] k b"
    using assms(2,3) by (auto simp: corr_block_at_def)
  then show ?thesis by blast
qed

lemma corr_open_grows:
  assumes "corr_block_at blk [] k (concat blk)" and "startswith_t l"
  shows "corr_block_at (blk @ [l]) [] k (concat (blk @ [l]))"
  using assms by (auto simp: corr_block_at_def)

lemma corr_open_starts:
  "corr_header l = Some k \<Longrightarrow> k \<noteq> 0 \<Longrightarrow> corr_block_at [l] [] k (concat [l])"
  by (simp add: corr_block_at_def)

lemma corr_track_init: "corr_track [] corr_init"
  by (simp add: corr_track_def corr_init_def)

lemma corr_track_step:
  assumes "corr_track seen st"
  shows "corr_track (seen @ [l]) (corr_step l st)"
proof -
  have old: "\<exists>pre blk post. seen @ [l] = pre @ blk @ post \<and> post \<noteq> []
      \<and> corr_block_at blk post k b" if "map_of (results st) k = Some b" for k b
    using assms that by (intro corr_closed_later) (simp add: corr_track_def)
  show ?thesis
  proof (cases "image_id st \<noteq> 0")
    case inside: True
    with assms have op: "\<exists>pre. seen = pre @ result st"
      "corr_block_at (result st) [] (image_id st) (concat (result st))"
      by (simp_all add: corr_track_def)
    show ?thesis
    proof (cases "startswith_t l")
      case True
      then have s: "corr_step l st = st\<lparr>result := result st @ [l]\<rparr>"
        using inside by (simp add: corr_step_def corr_inside_def Let_def)
      from op(1) have "\<exists>pre. seen @ [l] = pre @ (result st @ [l])" by auto
      with old corr_open_grows [OF op(2) True] show ?thesis
        unfolding s by (simp add: corr_track_def)
    next
      case False
      let ?st1 = "st\<lparr>results := AList.update (image_id st) (concat (result st)) (results st),
          image_id := 0\<rparr>"
      have s: "corr_step l st = corr_outside l ?st1"
        using inside False by (simp add: corr_step_def corr_inside_def Let_def)
      have new: "\<exists>pre blk post. seen @ [l] = pre @ blk @ post \<and> post \<noteq> []
          \<and> corr_block_at blk post k b" if "map_of (results ?st1) k = Some b" for k b
        using that old corr_open_closes [OF op False]
        by (auto simp: update_conv' split: if_splits)
      show ?thesis
      proof (cases "corr_header l")
        case None
        then show ?thesis using new unfolding s
          by (simp add: corr_outside_def corr_track_def)
      next
        case (Some i)
        have "\<exists>pre. seen @ [l] = pre @ [l]" by simp
        with Some new corr_open_starts [OF Some] show ?thesis unfolding s
          by (simp add: corr_outside_def corr_track_def)
      qed
    qed
  next
    case outside: False
    then have s: "corr_step l st = corr_outside l st"
      by (simp add: corr_step_def Let_def)
    show ?thesis
    proof (cases "corr_header l")
      case None
      then show ?thesis using old outside unfolding s
        by (simp add: corr_outside_def corr_track_def)
    next
      case (Some i)
      have "\<exists>pre. seen @ [l] = pre @ [l]" by simp
      with Some old corr_open_starts [OF Some] show ?thesis unfolding s
        by (simp add: corr_outside_def corr_track_def)
    qed
  qed
qed

lemma corr_track_fold: "corr_track capture (fold corr_step capture corr_init)"
proof (induction capture rule: rev_induct)
  case Nil
  then show ?case by (simp add: corr_track_init)
next
  case (snoc l capture)
  then show ?case by (simp only: fold_snoc corr_track_step)
qed

lemma corr_block_at_nonzero: "corr_block_at blk post k b \<Longrightarrow> k \<noteq> 0"
  by (auto simp: corr_block_at_def)

lemma extract_results_corr_blocks:
  assumes "map_of (extract_results_corr capture) k = Some b"
  shows "k \<noteq> 0 \<and> corr_block_of capture k b"
proof -
  let ?st = "fold corr_step capture corr_init"
  note tr = corr_track_fold [of capture]
  have closed: "corr_block_of capture k b" if "map_of (results ?st) k = Some b"
    using tr that unfolding corr_track_def corr_block_of_def by blast
  have "corr_block_of capture k b"
  proof (cases "image_id ?st \<noteq> 0 \<and> k = image_id ?st")
    case True
    with assms have b: "b = concat (result ?st)"
      by (simp add: extract_results_corr_def corr_finish_def update_conv')
    from tr True obtain pre where "capture = pre @ result ?st @ []"
      "corr_block_at (result ?st) [] k (concat (result ?st))"
      unfolding corr_track_def by auto
    then show ?thesis unfolding corr_block_of_def b by blast
  next
    case False
    with assms have "map_of (results ?st) k = Some b"
      by (auto simp: extract_results_corr_def corr_finish_def update_conv' split: if_splits)
    then show ?thesis by (rule closed)
  qed
  then show ?thesis
    by (auto simp: corr_block_of_def dest: corr_block_at_nonzero)
qed

lemma coloc_block_at_later:
  "post \<noteq> [] \<Longrightarrow> coloc_block_at blk post k b \<Longrightarrow> coloc_block_at blk (post @ [l]) k b"
  by (simp add: coloc_block_at_def)

lemma coloc_closed_later:
  assumes "\<exists>pre blk post. seen = pre @ blk @ post \<and> post \<noteq> [] \<and> coloc_block_at blk post k b"
  shows "\<exists>pre blk post. seen @ [l] = pre @ blk @ post \<and> post \<noteq> [] \<and> coloc_block_at blk post k b"
proof -
  from assms obtain pre blk post where
    "seen = pre @ blk @ post" "post \<noteq> []" "coloc_block_at blk post k b"
    by blast
  then have "seen @ [l] = pre @ blk @ (post @ [l]) \<and> post @ [l] \<noteq> []
      \<and> coloc_block_at blk (post @ [l]) k b"
    by (simp add: coloc_block_at_later)
  then show ?thesis by blast
qed

lemma coloc_open_block:
  assumes "coloc_open seen st" and "image_id st \<noteq> 0" and "post = [] \<or> coloc_row (hd post) = None"
  shows "\<exists>pre blk. seen = pre @ blk
      \<and> coloc_block_at blk post (image_id st) (join [newline] (result st))"
proof -
  from assms(1,2) obtain pre h cols rows rests where o:
    "seen = pre @ h # rows" "coloc_header h = Some cols"
    "list_all2 (\<lambda>l r. \<exists>i. coloc_row l = Some (i, r)) rows rests"
    "result st = cols # rests" "rows \<noteq> []"
    "\<exists>r. coloc_row (last rows) = Some (image_id st, r)"
    unfolding coloc_open_def by blast
  have "coloc_block_at (h # rows) post (image_id st) (join [newline] (result st))"
    unfolding coloc_block_at_def using o assms(3)
    by (intro exI [of _ h] exI [of _ cols] exI [of _ rows] exI [of _ rests]) simp
  with o(1) show ?thesis by (intro exI [of _ pre] exI [of _ "h # rows"]) simp
qed

lemma coloc_open_grows:
  assumes "coloc_open seen st" and "coloc_row l = Some (i, r)"
  shows "coloc_open (seen @ [l]) (st\<lparr>image_id := i, result := result st @ [r]\<rparr>)"
proof -
  from assms(1) obtain pre h cols rows rests where o:
    "seen = pre @ h # rows" "coloc_header h = Some cols"
    "list_all2 (\<lambda>l r. \<exists>i. coloc_row l = Some (i, r)) rows rests"
    "result st = cols # rests"
    unfolding coloc_open_def by blast
  have "list_all2 (\<lambda>l r. \<exists>i. coloc_row l = Some (i, r)) (rows @ [l]) (rests @ [r])"
    using o(3) assms(2) by (simp add: list_all2_appendI)
  moreover have "seen @ [l] = pre @ h # (rows @ [l])" using o(1) by simp
  moreover have "coloc_row (last (rows @ [l])) = Some (i, r)" using assms(2) by simp
  ultimately show ?thesis
    unfolding coloc_open_def using o(2,4)
    by (intro exI [of _ pre] exI [of _ h] exI [of _ cols] exI [of _ "rows @ [l]"]
        exI [of _ "rests @ [r]"]) auto
qed

lemma coloc_open_starts:
  "coloc_header l = Some cols \<Longrightarrow> image_id st = 0 \<Longrightarrow>
   coloc_open (seen @ [l]) (st\<lparr>result := [cols], extract_result := True\<rparr>)"
  unfolding coloc_open_def
  by (intro exI [of _ seen] exI [of _ l] exI [of _ cols] exI [of _ "[]"]) simp

lemma coloc_track_init: "coloc_track [] coloc_init"
  by (simp add: coloc_track_def coloc_init_def)

lemma coloc_track_outside:
  assumes old: "\<And>k b. k \<noteq> 0 \<Longrightarrow> map_of (results st) k = Some b \<Longrightarrow>
      \<exists>pre blk post. seen @ [l] = pre @ blk @ post \<and> post \<noteq> [] \<and> coloc_block_at blk post k b"
    and "\<not> extract_result st" and "image_id st = 0"
  shows "coloc_track (seen @ [l]) (coloc_outside l st)"
proof (cases "coloc_header l")
  case None
  then show ?thesis using assms by (auto simp: coloc_outside_def coloc_track_def)
next
  case (Some cols)
  from coloc_open_starts [OF Some assms(3), of seen]
  show ?thesis using Some assms(1,3)
    by (auto simp: coloc_outside_def coloc_track_def)
qed

lemma coloc_track_step:
  assumes "coloc_track seen st"
  shows "coloc_track (seen @ [l]) (coloc_step l st)"
proof -
  have old: "\<exists>pre blk post. seen @ [l] = pre @ blk @ post \<and> post \<noteq> []
      \<and> coloc_block_at blk post k b" if "k \<noteq> 0" "map_of (results st) k = Some b" for k b
    using assms that by (intro coloc_closed_later) (simp add: coloc_track_def)
  show ?thesis
  proof (cases "extract_result st")
    case inside: True
    with assms have op: "coloc_open seen st" by (simp add: coloc_track_def)
    show ?thesis
    proof (cases "coloc_row l")
      case (Some ir)
      obtain i r where ir: "ir = (i, r)" by (cases ir)
      have s: "coloc_step l st = st\<lparr>image_id := i, result := result st @ [r]\<rparr>"
        using inside Some ir by (simp add: coloc_step_row)
      from coloc_open_grows [OF op Some [unfolded ir]] old inside show ?thesis
        unfolding s by (auto simp: coloc_track_def)
    next
      case None
      let ?st1 = "st\<lparr>results :=
            AList.update (image_id st) (join [newline] (result st)) (results st),
          image_id := 0, extract_result := False\<rparr>"
      have s: "coloc_step l st = coloc_outside l ?st1"
        using inside None by (simp add: coloc_step_def coloc_inside_def Let_def)
      have new: "\<exists>pre blk post. seen @ [l] = pre @ blk @ post \<and> post \<noteq> []
          \<and> coloc_block_at blk post k b" if "k \<noteq> 0" "map_of (results ?st1) k = Some b" for k b
      proof (cases "k = image_id st")
        case True
        with that have b: "b = join [newline] (result st)" and nz: "image_id st \<noteq> 0"
          by (simp_all add: update_conv')
        from coloc_open_block [OF op nz, of "[l]"] None obtain pre blk where
          "seen = pre @ blk" "coloc_block_at blk [l] k b"
          unfolding b True by auto
        then have "seen @ [l] = pre @ blk @ [l] \<and> [l] \<noteq> [] \<and> coloc_block_at blk [l] k b"
          by simp
        then show ?thesis by blast
      next
        case False
        with that have "map_of (results st) k = Some b" by (simp add: update_conv')
        with that(1) show ?thesis by (rule old)
      qed
      show ?thesis unfolding s
        by (rule coloc_track_outside) (use new in simp_all)
    qed
  next
    case outside: False
    then have s: "coloc_step l st = coloc_outside l st"
      by (simp add: coloc_step_def Let_def)
    from assms outside have "image_id st = 0" by (auto simp: coloc_track_def)
    with old outside show ?thesis unfolding s
      by (intro coloc_track_outside) simp_all
  qed
qed

lemma coloc_track_fold: "coloc_track capture (fold coloc_step capture coloc_init)"
proof (induction capture rule: rev_induct)
  case Nil
  then show ?case by (simp add: coloc_track_init)
next
  case (snoc l capture)
  then show ?case by (simp only: fold_snoc coloc_track_step)
qed

lemma extract_results_coloc_blocks:
  assumes "map_of (extract_results_coloc capture) k = Some b" and "k \<noteq> 0"
  shows "coloc_block_of capture k b"
proof -
  let ?st = "fold coloc_step capture coloc_init"
  note tr = coloc_track_fold [of capture]
  show ?thesis
  proof (cases "image_id ?st \<noteq> 0 \<and> k = image_id ?st")
    case True
    with assms have b: "b = join [newline] (result ?st)"
      by (simp add: extract_results_coloc_def coloc_finish_def update_conv')
    from tr True have "coloc_open capture ?st" by (simp add: coloc_track_def)
    from coloc_open_block [OF this, of "[]"] True obtain pre blk where
      "capture = pre @ blk @ []" "coloc_block_at blk [] k b"
      unfolding b by auto
    then show ?thesis unfolding coloc_block_of_def by blast
  next
    case False
    with assms have "map_of (results ?st) k = Some b"
      by (auto simp: extract_results_coloc_def coloc_finish_def update_conv' split: if_splits)
    with tr assms(2) show ?thesis
      unfolding coloc_track_def coloc_block_of_def by blast
  qed
qed

section \<open>Claims about the extraction\<close>

text \<open>
  C1 (as amended). Let \<open>sa\<close> and \<open>sb\<close> be the states of the two extraction loops after
  the lines \<open>pre_a\<close> and \<open>pre_b\<close> of a capture file. If the colocalisation loop is in a
  block and the next line is no data row, or the correlation loop is in a block and
  the next line does not start with \<open>t\<close>, the loop stores the accumulated block under
  the current image id, leaves the block, and handles that same line as a line
  outside a block before it goes on with the rest of the file. At the end of the file
  the correlation loop stores an open block; the colocalisation loop stores it when
  the image id is not zero, and returns the dictionary unchanged when the block is
  open but no data row has set the image id.
\<close>

theorem flush_and_reevaluate:
  assumes "sa = fold coloc_step pre_a coloc_init"
    and "sb = fold corr_step pre_b corr_init"
  shows
    "(extract_result sa \<and> coloc_row l_a = None \<longrightarrow>
        fold coloc_step (pre_a @ l_a # post_a) coloc_init =
          fold coloc_step post_a
            (coloc_outside l_a
              (sa\<lparr>results :=
                    AList.update (image_id sa) (join [newline] (result sa)) (results sa),
                  image_id := 0, extract_result := False\<rparr>)))
     \<and> (image_id sb \<noteq> 0 \<and> \<not> startswith_t l_b \<longrightarrow>
        fold corr_step (pre_b @ l_b # post_b) corr_init =
          fold corr_step post_b
            (corr_outside l_b
              (sb\<lparr>results := AList.update (image_id sb) (concat (result sb)) (results sb),
                  image_id := 0\<rparr>)))
     \<and> (image_id sb \<noteq> 0 \<longrightarrow>
        extract_results_corr pre_b =
          AList.update (image_id sb) (concat (result sb)) (results sb))
     \<and> (extract_result sa \<and> image_id sa \<noteq> 0 \<longrightarrow>
        extract_results_coloc pre_a =
          AList.update (image_id sa) (join [newline] (result sa)) (results sa))
     \<and> (extract_result sa \<and> image_id sa = 0 \<longrightarrow> extract_results_coloc pre_a = results sa)"
  using assms
  by (simp add: coloc_step_def coloc_inside_def corr_step_def corr_inside_def Let_def
      extract_results_coloc_def extract_results_corr_def coloc_finish_def corr_finish_def)

theorem flush_and_reevaluate_witness:
  "fold coloc_step
     ([''Image,p,Method,Frame\<newline>'', ''3.ome.tif,0.05,Otsu,1\<newline>'']
        @ ''Image,p,Method,Frame\<newline>'' # [''4.ome.tif,0.05,Otsu,1\<newline>'']) coloc_init
   = \<lparr>results = [(3, ''p,Method,Frame\<newline>0.05,Otsu,1'')], image_id = 4,
      result = [''p,Method,Frame'', ''0.05,Otsu,1''], extract_result = True\<rparr>
   \<and> fold corr_step
     ([''Stack correlation (Otsu) : 7.ome.tif\<newline>'', ''t1,c1,c2,5\<newline>'']
        @ ''Stack correlation (Otsu) : 8.ome.tif\<newline>'' # [''t1,c1,c2,6\<newline>'']) corr_init
   = \<lparr>results = [(7, ''Stack correlation (Otsu) : 7.ome.tif\<newline>t1,c1,c2,5\<newline>'')],
      image_id = 8,
      result = [''Stack correlation (Otsu) : 8.ome.tif\<newline>'', ''t1,c1,c2,6\<newline>'']\<rparr>
   \<and> extract_results_corr
       [''Stack correlation (Otsu) : 7.ome.tif\<newline>'', ''t1,c1,c2,5\<newline>'']
     = [(7, ''Stack correlation (Otsu) : 7.ome.tif\<newline>t1,c1,c2,5\<newline>'')]
   \<and> extract_results_coloc [''Image,p,Method,Frame\<newline>'', ''3.ome.tif,0.05,Otsu,1\<newline>'']
     = [(3, ''p,Method,Frame\<newline>0.05,Otsu,1'')]"
proof -
  let ?pa = "[''Image,p,Method,Frame\<newline>'', ''3.ome.tif,0.05,Otsu,1\<newline>'']"
  let ?pb = "[''Stack correlation (Otsu) : 7.ome.tif\<newline>'', ''t1,c1,c2,5\<newline>'']"
  let ?la = "''Image,p,Method,Frame\<newline>''"
  let ?lb = "''Stack correlation (Otsu) : 8.ome.tif\<newline>''"
  have sa: "fold coloc_step ?pa coloc_init
      = \<lparr>results = [], image_id = 3, result = [''p,Method,Frame'', ''0.05,Otsu,1''],
         extract_result = True\<rparr>"
    by code_simp
  have sb: "fold corr_step ?pb corr_init
      = \<lparr>results = [], image_id = 7,
         result = [''Stack correlation (Otsu) : 7.ome.tif\<newline>'', ''t1,c1,c2,5\<newline>'']\<rparr>"
    by code_simp
  have la: "coloc_row ?la = None" by code_simp
  have lb: "\<not> startswith_t ?lb" by code_simp
  have oa: "fold coloc_step [''4.ome.tif,0.05,Otsu,1\<newline>'']
      (coloc_outside ?la
        \<lparr>results = AList.update 3 (join [newline] [''p,Method,Frame'', ''0.05,Otsu,1'']) [],
         image_id = 0, result = [''p,Method,Frame'', ''0.05,Otsu,1''],
         extract_result = False\<rparr>)
      = \<lparr>results = [(3, ''p,Method,Frame\<newline>0.05,Otsu,1'')], image_id = 4,
         result = [''p,Method,Frame'', ''0.05,Otsu,1''], extract_result = True\<rparr>"
    by code_simp
  have ob: "fold corr_step [''t1,c1,c2,6\<newline>'']
      (corr_outside ?lb
        \<lparr>results = AList.update 7
           (concat [''Stack correlation (Otsu) : 7.ome.tif\<newline>'', ''t1,c1,c2,5\<newline>'']) [],
         image_id = 0,
         result = [''Stack correlation (Otsu) : 7.ome.tif\<newline>'', ''t1,c1,c2,5\<newline>'']\<rparr>)
      = \<lparr>results = [(7, ''Stack correlation (Otsu) : 7.ome.tif\<newline>t1,c1,c2,5\<newline>'')],
         image_id = 8,
         result = [''Stack correlation (Otsu) : 8.ome.tif\<newline>'', ''t1,c1,c2,6\<newline>'']\<rparr>"
    by code_simp
  have ua: "AList.update (3::int) (join [newline] [''p,Method,Frame'', ''0.05,Otsu,1'']) []
      = [(3, ''p,Method,Frame\<newline>0.05,Otsu,1'')]"
    by code_simp
  have ub: "AList.update (7::int)
      (concat [''Stack correlation (Otsu) : 7.ome.tif\<newline>'', ''t1,c1,c2,5\<newline>'']) []
      = [(7, ''Stack correlation (Otsu) : 7.ome.tif\<newline>t1,c1,c2,5\<newline>'')]"
    by code_simp
  show ?thesis
    using flush_and_reevaluate [OF sa [symmetric] sb [symmetric],
        of ?la "[''4.ome.tif,0.05,Otsu,1\<newline>'']" ?lb "[''t1,c1,c2,6\<newline>'']"]
      la lb oa ob ua ub
    by simp
qed

theorem eof_open_accumulator_counterexample:
  "fold coloc_step [''Image,p,Method,Frame\<newline>''] coloc_init
     = \<lparr>results = [], image_id = 0, result = [''p,Method,Frame''], extract_result = True\<rparr>
   \<and> extract_results_coloc [''Image,p,Method,Frame\<newline>''] = []"
  by code_simp

text \<open>
  C4 (as amended). In the dictionary that either extraction returns every image id is
  a key at most once. In the colocalisation script every block begins with the
  column names \<open>p,Method...\<close>, and no key other than 0 has a block without a parsed
  data row: the block of such a key is the column names of a header line of the file
  and the data of the one or more row lines that follow it, up to the end of the file
  or the first line that is no row, the last of these rows carrying the key's id. In
  the correlation script every key is non-zero and its block is a label line of the
  key's image and exactly the lines that follow it and start with \<open>t\<close>, up to the end
  of the file or the first line that does not start with \<open>t\<close>; there may be no such
  line, and then the block is the label line alone.
\<close>

theorem extracted_entries_are_blocks:
  "distinct (map fst (extract_results_coloc fa)) \<and>
   distinct (map fst (extract_results_corr fb)) \<and>
   (\<forall>k b. map_of (extract_results_coloc fa) k = Some b \<longrightarrow> prefix ''p,Method'' b) \<and>
   (\<forall>k b. k \<noteq> 0 \<and> map_of (extract_results_coloc fa) k = Some b \<longrightarrow> coloc_block_of fa k b) \<and>
   (\<forall>k b. map_of (extract_results_corr fb) k = Some b \<longrightarrow> k \<noteq> 0 \<and> corr_block_of fb k b)"
proof (intro conjI allI impI)
  show "distinct (map fst (extract_results_coloc fa))"
    using coloc_fold_distinct[of coloc_init fa]
    by (simp add: extract_results_coloc_def coloc_finish_def coloc_init_def distinct_update)
  show "distinct (map fst (extract_results_corr fb))"
    using corr_fold_distinct[of corr_init fb]
    by (simp add: extract_results_corr_def corr_finish_def corr_init_def distinct_update)
next
  fix k b assume "map_of (extract_results_coloc fa) k = Some b"
  then show "prefix ''p,Method'' b"
    using coloc_inv_finish[OF coloc_inv_fold[OF coloc_inv_init]]
    by (simp add: extract_results_coloc_def)
next
  fix k b assume "k \<noteq> 0 \<and> map_of (extract_results_coloc fa) k = Some b"
  then show "coloc_block_of fa k b"
    by (simp add: extract_results_coloc_blocks)
next
  fix k b assume a: "map_of (extract_results_corr fb) k = Some b"
  from extract_results_corr_blocks [OF a] show "k \<noteq> 0" and "corr_block_of fb k b"
    by simp_all
qed

theorem extracted_entries_are_blocks_witness:
  "map_of (extract_results_coloc
      [''Image,p,Method,Frame\<newline>'', ''3.ome.tif,0.05,Otsu,1\<newline>'', ''Finished\<newline>'']) 3
     = Some ''p,Method,Frame\<newline>0.05,Otsu,1''
   \<and> prefix ''p,Method'' ''p,Method,Frame\<newline>0.05,Otsu,1''
   \<and> coloc_block_of
        [''Image,p,Method,Frame\<newline>'', ''3.ome.tif,0.05,Otsu,1\<newline>'', ''Finished\<newline>'']
        3 ''p,Method,Frame\<newline>0.05,Otsu,1''
   \<and> map_of (extract_results_corr
      [''Stack correlation (Otsu) : 7.ome.tif\<newline>'', ''t1,c1,c2,5\<newline>'']) 7
     = Some ''Stack correlation (Otsu) : 7.ome.tif\<newline>t1,c1,c2,5\<newline>''
   \<and> corr_block_of
        [''Stack correlation (Otsu) : 7.ome.tif\<newline>'', ''t1,c1,c2,5\<newline>'']
        7 ''Stack correlation (Otsu) : 7.ome.tif\<newline>t1,c1,c2,5\<newline>''"
proof -
  let ?fa = "[''Image,p,Method,Frame\<newline>'', ''3.ome.tif,0.05,Otsu,1\<newline>'', ''Finished\<newline>'']"
  let ?fb = "[''Stack correlation (Otsu) : 7.ome.tif\<newline>'', ''t1,c1,c2,5\<newline>'']"
  have a: "map_of (extract_results_coloc ?fa) 3 = Some ''p,Method,Frame\<newline>0.05,Otsu,1''"
    by code_simp
  have b: "map_of (extract_results_corr ?fb) 7
      = Some ''Stack correlation (Otsu) : 7.ome.tif\<newline>t1,c1,c2,5\<newline>''"
    by code_simp
  have nz: "(3::int) \<noteq> 0" by simp
  from extracted_entries_are_blocks [of ?fa ?fb] a b nz show ?thesis
    by blast
qed

theorem header_only_block_counterexample:
  "map_of (extract_results_corr
      [''Stack correlation (Otsu) : 7.ome.tif\<newline>'', ''Finished\<newline>'']) 7
     = Some ''Stack correlation (Otsu) : 7.ome.tif\<newline>'' \<and>
   data_rows ''Stack correlation (Otsu) : 7.ome.tif\<newline>'' = []"
  by code_simp

text \<open>
  C10. A capture file holds a block for image \<open>n\<close>, anything, and a later block for
  the same image \<open>n\<close> that is the last one for it: after the later block the file
  ends or goes on with a line that is no row, and no further line is a row (a label,
  in the correlation script) of \<open>n\<close>. Then the dictionary holds under \<open>n\<close> the later
  block alone: its header and its rows. The colocalisation file is
  \<open>pre @ h1 # rows1 @ mid @ h2 # rows2 @ post\<close> for image \<open>n\<close>, the correlation file
  is \<open>pre' @ g1 # trows1 @ mid' @ g2 # trows2 @ post'\<close> for image \<open>m\<close>.
\<close>

theorem later_block_replaces_earlier:
  assumes "coloc_header h1 = Some cols1"
    and "list_all2 (\<lambda>l r. coloc_row l = Some (n, r)) rows1 rests1" and "rows1 \<noteq> []"
    and "coloc_header h2 = Some cols2"
    and "list_all2 (\<lambda>l r. coloc_row l = Some (n, r)) rows2 rests2" and "rows2 \<noteq> []"
    and "n \<noteq> 0"
    and "post = [] \<or> coloc_row (hd post) = None"
    and "\<forall>l\<in>set post. \<forall>r. coloc_row l \<noteq> Some (n, r)"
    and "corr_header g1 = Some m" and "list_all startswith_t trows1"
    and "corr_header g2 = Some m" and "list_all startswith_t trows2"
    and "m \<noteq> 0"
    and "post' = [] \<or> \<not> startswith_t (hd post')"
    and "\<forall>l\<in>set post'. corr_header l \<noteq> Some m"
  shows
    "map_of (extract_results_coloc (pre @ h1 # rows1 @ mid @ h2 # rows2 @ post)) n
       = Some (join [newline] (cols2 # rests2))
     \<and> map_of (extract_results_corr (pre' @ g1 # trows1 @ mid' @ g2 # trows2 @ post')) m
       = Some (concat (g2 # trows2))"
proof
  have "pre @ h1 # rows1 @ mid @ h2 # rows2 @ post
      = (pre @ h1 # rows1 @ mid) @ (h2 # rows2 @ post)"
    by simp
  then have "extract_results_coloc (pre @ h1 # rows1 @ mid @ h2 # rows2 @ post)
      = coloc_finish (fold coloc_step (h2 # rows2 @ post)
          (fold coloc_step (pre @ h1 # rows1 @ mid) coloc_init))"
    unfolding extract_results_coloc_def by (simp only: fold_append o_apply)
  then show "map_of (extract_results_coloc (pre @ h1 # rows1 @ mid @ h2 # rows2 @ post)) n
       = Some (join [newline] (cols2 # rests2))"
    using coloc_later_block [OF assms(4) assms(5) assms(6) assms(7) assms(8) assms(9)]
    by simp
next
  have "pre' @ g1 # trows1 @ mid' @ g2 # trows2 @ post'
      = (pre' @ g1 # trows1 @ mid') @ (g2 # trows2 @ post')"
    by simp
  then have "extract_results_corr (pre' @ g1 # trows1 @ mid' @ g2 # trows2 @ post')
      = corr_finish (fold corr_step (g2 # trows2 @ post')
          (fold corr_step (pre' @ g1 # trows1 @ mid') corr_init))"
    unfolding extract_results_corr_def by (simp only: fold_append o_apply)
  then show "map_of (extract_results_corr (pre' @ g1 # trows1 @ mid' @ g2 # trows2 @ post')) m
       = Some (concat (g2 # trows2))"
    using corr_later_block [OF assms(12) assms(14) assms(13) assms(15) assms(16)]
    by simp
qed

theorem later_block_replaces_earlier_witness:
  "map_of (extract_results_coloc
      ([''Starting\<newline>'']
        @ ''Image,p,Method,Frame\<newline>'' # [''3.ome.tif,0.05,Otsu,1\<newline>'']
        @ [''Stack colocalisation (Otsu) : 3.ome.tif\<newline>'']
        @ ''Image,p,Method,Frame,Ch1\<newline>''
          # [''3.ome.tif,0.01,Otsu,1,c1\<newline>'', ''3.ome.tif,0.01,Otsu,2,c1\<newline>'']
        @ [''Finished\<newline>''])) 3
     = Some ''p,Method,Frame,Ch1\<newline>0.01,Otsu,1,c1\<newline>0.01,Otsu,2,c1''
   \<and> map_of (extract_results_corr
      ([''Reading IFDs\<newline>'']
        @ ''Stack correlation (Otsu) : 7.ome.tif\<newline>'' # [''t1,c1,c2,5\<newline>'']
        @ [''Populating metadata\<newline>'']
        @ ''Stack correlation (Li) : 7.ome.tif\<newline>''
          # [''t1,c1,c2,6\<newline>'', ''t2,c1,c2,8\<newline>'']
        @ [''Finished\<newline>''])) 7
     = Some ''Stack correlation (Li) : 7.ome.tif\<newline>t1,c1,c2,6\<newline>t2,c1,c2,8\<newline>''"
proof -
  have a1: "coloc_header ''Image,p,Method,Frame\<newline>'' = Some ''p,Method,Frame''"
    by code_simp
  have a2: "list_all2 (\<lambda>l r. coloc_row l = Some (3, r))
      [''3.ome.tif,0.05,Otsu,1\<newline>''] [''0.05,Otsu,1'']"
    by code_simp
  have a3: "coloc_header ''Image,p,Method,Frame,Ch1\<newline>'' = Some ''p,Method,Frame,Ch1''"
    by code_simp
  have a4: "list_all2 (\<lambda>l r. coloc_row l = Some (3, r))
      [''3.ome.tif,0.01,Otsu,1,c1\<newline>'', ''3.ome.tif,0.01,Otsu,2,c1\<newline>'']
      [''0.01,Otsu,1,c1'', ''0.01,Otsu,2,c1'']"
    by code_simp
  have a5: "[''Finished\<newline>''] = [] \<or> coloc_row (hd [''Finished\<newline>'']) = None"
    by code_simp
  have a6: "\<forall>l\<in>set [''Finished\<newline>'']. \<forall>r. coloc_row l \<noteq> Some (3, r)"
    using a5 by simp
  have b1: "corr_header ''Stack correlation (Otsu) : 7.ome.tif\<newline>'' = Some 7"
    by code_simp
  have b2: "corr_header ''Stack correlation (Li) : 7.ome.tif\<newline>'' = Some 7"
    by code_simp
  have b3: "list_all startswith_t [''t1,c1,c2,5\<newline>'']"
    "list_all startswith_t [''t1,c1,c2,6\<newline>'', ''t2,c1,c2,8\<newline>'']"
    by code_simp+
  have b4: "[''Finished\<newline>''] = [] \<or> \<not> startswith_t (hd [''Finished\<newline>''])"
    by code_simp
  have b5: "corr_header ''Finished\<newline>'' = None"
    by code_simp
  have b6: "\<forall>l\<in>set [''Finished\<newline>'']. corr_header l \<noteq> Some 7"
    using b5 by simp
  have j: "join [newline] (''p,Method,Frame,Ch1'' # [''0.01,Otsu,1,c1'', ''0.01,Otsu,2,c1''])
      = ''p,Method,Frame,Ch1\<newline>0.01,Otsu,1,c1\<newline>0.01,Otsu,2,c1''"
    by code_simp
  have c: "concat (''Stack correlation (Li) : 7.ome.tif\<newline>''
        # [''t1,c1,c2,6\<newline>'', ''t2,c1,c2,8\<newline>''])
      = ''Stack correlation (Li) : 7.ome.tif\<newline>t1,c1,c2,6\<newline>t2,c1,c2,8\<newline>''"
    by code_simp
  from later_block_replaces_earlier [OF a1 a2 _ a3 a4 _ _ a5 a6 b1 b3(1) b2 b3(2) _ b4 b6,
      of "[''Starting\<newline>'']" "[''Stack colocalisation (Otsu) : 3.ome.tif\<newline>'']"
         "[''Reading IFDs\<newline>'']" "[''Populating metadata\<newline>'']"]
  show ?thesis
    unfolding j c by simp
qed

section \<open>Properties of the parameter checks\<close>

lemma find_channel_from_none:
  "find_channel_from k chs c = - 1 \<longleftrightarrow>
     (\<forall>i<length chs. chs ! i \<noteq> c \<and> str_nat (k + i + 1) \<noteq> c)"
proof (induction chs arbitrary: k)
  case Nil
  then show ?case by simp
next
  case (Cons ch chs)
  have shift: "(\<forall>i<length chs. chs ! i \<noteq> c \<and> str_nat (Suc k + i + 1) \<noteq> c)
      \<longleftrightarrow> (\<forall>i<length chs. (ch # chs) ! Suc i \<noteq> c \<and> str_nat (k + Suc i + 1) \<noteq> c)"
    by simp
  show ?case
    using Cons.IH [of "Suc k"] unfolding shift
    by (auto simp: less_Suc_eq_0_disj)
qed

lemma find_channel_from_some:
  "find_channel_from k chs c \<noteq> - 1 \<Longrightarrow>
   \<exists>i<length chs. find_channel_from k chs c = int (k + i)
      \<and> (chs ! i = c \<or> str_nat (k + i + 1) = c)
      \<and> (\<forall>j<i. chs ! j \<noteq> c \<and> str_nat (k + j + 1) \<noteq> c)"
proof (induction chs arbitrary: k)
  case Nil
  then show ?case by simp
next
  case (Cons ch chs)
  show ?case
  proof (cases "ch = c \<or> str_nat (k + 1) = c")
    case True
    then have "find_channel_from k (ch # chs) c = int (k + 0)
        \<and> ((ch # chs) ! 0 = c \<or> str_nat (k + 0 + 1) = c)"
      by auto
    then show ?thesis by (intro exI [of _ 0]) simp
  next
    case False
    then have eq: "find_channel_from k (ch # chs) c = find_channel_from (Suc k) chs c"
      by simp
    with Cons.prems have "find_channel_from (Suc k) chs c \<noteq> - 1" by simp
    from Cons.IH [OF this] obtain i where i: "i < length chs"
      "find_channel_from (Suc k) chs c = int (Suc k + i)"
      "chs ! i = c \<or> str_nat (Suc k + i + 1) = c"
      "\<forall>j<i. chs ! j \<noteq> c \<and> str_nat (Suc k + j + 1) \<noteq> c"
      by blast
    have "\<forall>j<Suc i. (ch # chs) ! j \<noteq> c \<and> str_nat (k + j + 1) \<noteq> c"
      using False i(4) by (auto simp: less_Suc_eq_0_disj)
    with i eq show ?thesis
      by (intro exI [of _ "Suc i"]) simp
  qed
qed

lemma fold_check_channel:
  "fold (check_channel i) C st =
     (fst st @ map (channel_error i) (filter (\<lambda>c. find_channel_index i c < 0) C),
      snd st \<and> list_all (\<lambda>c. \<not> find_channel_index i c < 0) C)"
  by (induction C arbitrary: st) (auto simp: check_channel_def)

lemma fold_check_image:
  "fold (check_image C) images st =
     (fst st @ concat (map (image_errors C) images), snd st \<and> channels_resolve C images)"
proof (induction images arbitrary: st)
  case Nil
  then show ?case by (simp add: channels_resolve_def present_def)
next
  case (Cons img images)
  show ?case
  proof (cases img)
    case None
    then show ?thesis
      using Cons.IH [of st]
      by (simp add: check_image_def image_errors_def channels_resolve_def present_def
         )
  next
    case (Some i)
    then show ?thesis
      using Cons.IH [of "fold (check_channel i) C st"]
      by (auto simp: check_image_def image_errors_def channels_resolve_def present_def
          fold_check_channel)
  qed
qed

lemma check_parameters_coloc_report:
  "fst (check_parameters_coloc images p) =
     concat (map (image_errors (selectors p)) images)
       @ (if Maximum_shift p \<le> Minimum_shift p
          then [shift_error (Maximum_shift p) (Minimum_shift p)] else [])
       @ (if \<not> Upload_results p \<and> \<not> Email_results p
          then [''ERROR: No results option selected''] else [])"
  by (simp add: check_parameters_coloc_def fold_check_image Let_def)

lemma check_parameters_coloc_result:
  "snd (check_parameters_coloc images p) \<longleftrightarrow>
     channels_resolve (selectors p) images
       \<and> Minimum_shift p < Maximum_shift p
       \<and> (Upload_results p \<or> Email_results p)"
  by (auto simp: check_parameters_coloc_def fold_check_image Let_def)

lemma present_iff: "img \<in> set (present images) \<longleftrightarrow> Some img \<in> set images"
  by (induction images) (auto simp: present_def split: option.splits)

lemma channels_resolve_iff:
  "channels_resolve C images \<longleftrightarrow>
     (\<forall>img s. Some img \<in> set images \<and> s \<in> set C \<longrightarrow> \<not> find_channel_index img s < 0)"
  by (auto simp: channels_resolve_def list_all_iff present_iff)

lemma channel_error_reported:
  "Some img \<in> set images \<Longrightarrow> s \<in> set C \<Longrightarrow> find_channel_index img s < 0 \<Longrightarrow>
   channel_error img s \<in> set (concat (map (image_errors C) images))"
  by (force simp: image_errors_def)

section \<open>Properties of the run\<close>

lemma bind_io_Inr: "bind_io (tr, Inr x) f = (tr @ fst (f x), snd (f x))"
  by (simp add: bind_io_def split: prod.splits)

lemma bind_io_Inl: "bind_io (tr, Inl e) f = (tr, Inl e)"
  by (simp add: bind_io_def)

lemma bind_io_cases:
  "bind_io m f =
     (case snd m of Inl e \<Rightarrow> (fst m, Inl e) | Inr x \<Rightarrow> (fst m @ fst (f x), snd (f x)))"
  by (cases m) (simp add: bind_io_def split: sum.splits prod.splits)

lemma run_with_invalid:
  "IDs p = [] \<Longrightarrow> run_with check macro extract rn c p = ([], Inr (- 1))"
  "IDs p \<noteq> [] \<Longrightarrow> \<not> snd (check (selected_images c p) p) \<Longrightarrow>
   run_with check macro extract rn c p = (map Print (fst (check (selected_images c p) p)), Inr (- 1))"
  by (simp_all add: run_with_def Let_def)

lemma run_with_valid:
  assumes "IDs p \<noteq> []" and "snd (check (selected_images c p) p)"
  shows "run_with check macro extract rn c p =
     bind_io (map Print (fst (check (selected_images c p) p)), Inr ()) (\<lambda>_.
     bind_io (extract_images c (selected_images c p)) (\<lambda>image_names.
     bind_io (run_imagej (macro (selected_images c p) p) extract c image_names) (\<lambda>res.
     bind_io (distribute c (rn p) res image_names p) (\<lambda>_.
     bind_io (rmdir c) (\<lambda>_.
     ([], Inr (int (length res))))))))"
  using assms by (simp add: run_with_def Let_def)

lemma run_with_export_error:
  assumes "IDs p \<noteq> []" and "snd (check (selected_images c p) p)"
    and "snd (extract_images c (selected_images c p)) = Inl e"
  shows "run_with check macro extract rn c p =
     (map Print (fst (check (selected_images c p) p)) @ fst (extract_images c (selected_images c p)),
      Inl e)"
  using assms by (simp add: run_with_def Let_def bind_io_cases)

lemma run_with_macro_error:
  assumes "IDs p \<noteq> []" and "snd (check (selected_images c p) p)"
    and "snd (extract_images c (selected_images c p)) = Inr names"
    and "snd (run_imagej (macro (selected_images c p) p) extract c names) = Inl e"
  shows "snd (run_with check macro extract rn c p) = Inl e"
  using assms by (simp add: run_with_def Let_def bind_io_cases)

lemma run_with_completed:
  assumes "IDs p \<noteq> []" and "snd (check (selected_images c p) p)"
    and "snd (extract_images c (selected_images c p)) = Inr names"
    and "snd (run_imagej (macro (selected_images c p) p) extract c names) = Inr res"
    and "snd (distribute c (rn p) res names p) = Inr u"
  shows "run_with check macro extract rn c p =
     (map Print (fst (check (selected_images c p) p))
        @ fst (extract_images c (selected_images c p))
        @ fst (run_imagej (macro (selected_images c p) p) extract c names)
        @ fst (distribute c (rn p) res names p)
        @ [Rmdir],
      if rmdir_succeeds c then Inr (int (length res)) else Inl OSError)"
  using assms by (simp add: run_with_def Let_def bind_io_cases rmdir_def)

lemma run_with_returns:
  assumes "snd (run_with check macro extract rn c p) = Inr n"
  shows "(n = - 1 \<longleftrightarrow> IDs p = [] \<or> \<not> snd (check (selected_images c p) p))
    \<and> (n \<noteq> - 1 \<longrightarrow> (\<exists>names res.
          snd (extract_images c (selected_images c p)) = Inr names
        \<and> snd (run_imagej (macro (selected_images c p) p) extract c names) = Inr res
        \<and> n = int (length res)))"
proof (cases "IDs p = [] \<or> \<not> snd (check (selected_images c p) p)")
  case True
  then have "snd (run_with check macro extract rn c p) = Inr (- 1)"
    by (auto simp: run_with_def Let_def)
  with assms True show ?thesis by simp
next
  case False
  then have "run_with check macro extract rn c p =
     bind_io (map Print (fst (check (selected_images c p) p)), Inr ()) (\<lambda>_.
     bind_io (extract_images c (selected_images c p)) (\<lambda>image_names.
     bind_io (run_imagej (macro (selected_images c p) p) extract c image_names) (\<lambda>res.
     bind_io (distribute c (rn p) res image_names p) (\<lambda>_.
     bind_io (rmdir c) (\<lambda>_.
     ([], Inr (int (length res))))))))"
    by (simp add: run_with_def Let_def)
  with assms False show ?thesis
    by (auto simp: bind_io_cases rmdir_def split: sum.splits if_splits)
qed

lemma run_imagej_results:
  "snd (run_imagej macro extract c names) = Inr res \<Longrightarrow>
   res = [] \<or> (\<exists>out. res = extract out)"
  by (auto simp: run_imagej_def run_process_def split: if_splits sum.splits process.splits prod.splits)

lemma run_imagej_removes_files:
  "names \<noteq> [] \<Longrightarrow> macro names = Inr blocks \<Longrightarrow>
   run_imagej macro extract c names =
     ([WriteMacro (concat blocks)] @ fst (run_process extract c (concat blocks)) @ [RemoveFiles],
      Inr (snd (run_process extract c (concat blocks))))"
  by (simp add: run_imagej_def split: prod.splits)

lemma run_process_failed:
  "imagej c m = LaunchFailed \<or> (\<exists>code out. imagej c m = Exited code out \<and> code \<noteq> 0) \<Longrightarrow>
   snd (run_process extract c m) = []"
  by (auto simp: run_process_def)

lemma distribute_no_results:
  "distribute c rn [] names p = no_results names" "snd (no_results names) = Inr ()"
  by (simp_all add: distribute_def no_results_def)

section \<open>Properties of the export\<close>

lemma export_each_present: "export_each c images = export_each c (map Some (present images))"
  by (induction c images rule: export_each.induct)
    (simp_all add: present_def)

lemma export_each_all:
  "list_all (\<lambda>img. export_succeeds c (getId img)) (present images) \<Longrightarrow>
   export_each c images =
     (concat (map exported (present images)), Inr (map (image_file c) (present images)))"
  by (induction c images rule: export_each.induct)
    (simp_all add: present_def bind_io_def exported_def)

lemma export_each_stops:
  "list_all (\<lambda>img. export_succeeds c (getId img)) (present pre) \<Longrightarrow>
   \<not> export_succeeds c (getId img) \<Longrightarrow>
   export_each c (pre @ Some img # post) =
     (concat (map exported (present pre)) @ [CloseExporter (getId img)], Inl ExportError)"
  by (induction c pre rule: export_each.induct)
    (simp_all add: present_def bind_io_def exported_def)

section \<open>Claims about the parameter checks\<close>

text \<open>
  C5 (as amended). Channel resolution returns the first 0-based index at which the
  channel's name equals the selector or the channel's 1-based position, written in
  decimal, equals the selector, and \<open>-1\<close> when there is no such index; a name match
  wins over a position match only when it does not come later in the channel list.
  For channels named DAPI, GFP, RFP the selector GFP resolves to 1, the selector 3 to
  2 and the selector Cy5 to nothing; and a selector of the parameters that does not
  resolve for an image of the selection makes the validation fail and is reported.
\<close>

theorem find_channel_index_first_match:
  "(find_channel_index img c = - 1 \<longleftrightarrow>
      (\<forall>i<length (getChannels img). getChannels img ! i \<noteq> c \<and> str_nat (i + 1) \<noteq> c))
   \<and> (find_channel_index img c \<noteq> - 1 \<longrightarrow>
      (\<exists>i<length (getChannels img). find_channel_index img c = int i
         \<and> (getChannels img ! i = c \<or> str_nat (i + 1) = c)
         \<and> (\<forall>j<i. getChannels img ! j \<noteq> c \<and> str_nat (j + 1) \<noteq> c)))
   \<and> find_channel_index (example_image 1 [''DAPI'', ''GFP'', ''RFP'']) ''GFP'' = 1
   \<and> find_channel_index (example_image 1 [''DAPI'', ''GFP'', ''RFP'']) ''3'' = 2
   \<and> find_channel_index (example_image 1 [''DAPI'', ''GFP'', ''RFP'']) ''Cy5'' = - 1
   \<and> (Some im \<in> set images \<and> s \<in> set (selectors p) \<and> find_channel_index im s < 0 \<longrightarrow>
        \<not> snd (check_parameters_coloc images p)
        \<and> channel_error im s \<in> set (fst (check_parameters_coloc images p)))"
proof (intro conjI impI)
  show "find_channel_index img c = - 1 \<longleftrightarrow>
      (\<forall>i<length (getChannels img). getChannels img ! i \<noteq> c \<and> str_nat (i + 1) \<noteq> c)"
    using find_channel_from_none [of 0 "getChannels img" c]
    by (simp add: find_channel_index_def)
  show "\<exists>i<length (getChannels img). find_channel_index img c = int i
         \<and> (getChannels img ! i = c \<or> str_nat (i + 1) = c)
         \<and> (\<forall>j<i. getChannels img ! j \<noteq> c \<and> str_nat (j + 1) \<noteq> c)"
    if "find_channel_index img c \<noteq> - 1"
    using find_channel_from_some [of 0 "getChannels img" c] that
    by (simp add: find_channel_index_def)
  show "find_channel_index (example_image 1 [''DAPI'', ''GFP'', ''RFP'']) ''GFP'' = 1"
    by code_simp
  show "find_channel_index (example_image 1 [''DAPI'', ''GFP'', ''RFP'']) ''3'' = 2"
    by code_simp
  show "find_channel_index (example_image 1 [''DAPI'', ''GFP'', ''RFP'']) ''Cy5'' = - 1"
    by code_simp
  show "\<not> snd (check_parameters_coloc images p)"
    if "Some im \<in> set images \<and> s \<in> set (selectors p) \<and> find_channel_index im s < 0"
    using that by (auto simp: check_parameters_coloc_result channels_resolve_iff)
  show "channel_error im s \<in> set (fst (check_parameters_coloc images p))"
    if "Some im \<in> set images \<and> s \<in> set (selectors p) \<and> find_channel_index im s < 0"
    using that channel_error_reported [of im images s "selectors p"]
    by (simp add: check_parameters_coloc_report)
qed

theorem find_channel_index_first_match_witness:
  "find_channel_index (example_image 1 [''DAPI'', ''1'']) ''1'' \<noteq> - 1
   \<and> (\<exists>i<length (getChannels (example_image 1 [''DAPI'', ''1''])).
        find_channel_index (example_image 1 [''DAPI'', ''1'']) ''1'' = int i
        \<and> (getChannels (example_image 1 [''DAPI'', ''1'']) ! i = ''1'' \<or> str_nat (i + 1) = ''1''))
   \<and> Some (example_image 1 [''DAPI'', ''GFP'', ''RFP''])
        \<in> set [Some (example_image 1 [''DAPI'', ''GFP'', ''RFP''])]
   \<and> ''Cy5'' \<in> set (selectors (example_coloc_params [1] ''Cy5'' 9 16 True))
   \<and> find_channel_index (example_image 1 [''DAPI'', ''GFP'', ''RFP'']) ''Cy5'' < 0
   \<and> \<not> snd (check_parameters_coloc [Some (example_image 1 [''DAPI'', ''GFP'', ''RFP''])]
            (example_coloc_params [1] ''Cy5'' 9 16 True))"
proof -
  have a: "find_channel_index (example_image 1 [''DAPI'', ''1'']) ''1'' \<noteq> - 1"
    by code_simp
  have b: "''Cy5'' \<in> set (selectors (example_coloc_params [1] ''Cy5'' 9 16 True))"
    by code_simp
  have c: "find_channel_index (example_image 1 [''DAPI'', ''GFP'', ''RFP'']) ''Cy5'' < 0"
    by code_simp
  from find_channel_index_first_match
    [of "example_image 1 [''DAPI'', ''1'']" "''1''"
        "example_image 1 [''DAPI'', ''GFP'', ''RFP'']"
        "[Some (example_image 1 [''DAPI'', ''GFP'', ''RFP''])]" "''Cy5''"
        "example_coloc_params [1] ''Cy5'' 9 16 True"]
    a b c
  show ?thesis by auto
qed

theorem name_precedence_counterexample:
  "find_channel_index (example_image 1 [''DAPI'', ''1'']) ''1'' = 0
   \<and> getChannels (example_image 1 [''DAPI'', ''1'']) ! 0 = ''DAPI''
   \<and> getChannels (example_image 1 [''DAPI'', ''1'']) ! 1 = ''1''"
  by code_simp

text \<open>
  C2 (as amended). When the id list is not empty and a precondition of the
  colocalisation run is violated (a selector of the parameters does not resolve for
  an image of the selection, the maximum shift is not greater than the minimum shift,
  or neither upload nor e-mail is chosen), the run returns \<open>-1\<close> and its only effects
  are the printed lines of the parameter check: nothing is exported, no process is
  run and nothing is distributed. The printed lines hold a line for every violation.
  The correlation run, whose one precondition is the choice of upload or e-mail,
  does the same. (With an empty id list the run returns \<open>-1\<close> before it checks the
  parameters and prints no line.)
\<close>

theorem validation_failure_reports_every_violation:
  assumes "IDs p \<noteq> []" and "IDs q \<noteq> []"
    and "images = selected_images c p"
    and "report = fst (check_parameters_coloc images p)"
  shows
    "((\<exists>im s. Some im \<in> set images \<and> s \<in> set (selectors p) \<and> find_channel_index im s < 0)
        \<or> Maximum_shift p \<le> Minimum_shift p
        \<or> (\<not> Upload_results p \<and> \<not> Email_results p)
      \<longrightarrow> run_coloc c p = (map Print report, Inr (- 1)))
     \<and> (\<forall>im s. Some im \<in> set images \<and> s \<in> set (selectors p) \<and> find_channel_index im s < 0
          \<longrightarrow> channel_error im s \<in> set report)
     \<and> (Maximum_shift p \<le> Minimum_shift p
          \<longrightarrow> shift_error (Maximum_shift p) (Minimum_shift p) \<in> set report)
     \<and> (\<not> Upload_results p \<and> \<not> Email_results p
          \<longrightarrow> ''ERROR: No results option selected'' \<in> set report)
     \<and> (\<not> Upload_results q \<and> \<not> Email_results q
          \<longrightarrow> run_corr d q = ([Print ''ERROR: No results option selected''], Inr (- 1)))"
proof (intro conjI impI allI)
  assume "(\<exists>im s. Some im \<in> set images \<and> s \<in> set (selectors p) \<and> find_channel_index im s < 0)
      \<or> Maximum_shift p \<le> Minimum_shift p \<or> (\<not> Upload_results p \<and> \<not> Email_results p)"
  then have "\<not> snd (check_parameters_coloc (selected_images c p) p)"
    unfolding assms(3) by (auto simp: check_parameters_coloc_result channels_resolve_iff)
  with assms show "run_coloc c p = (map Print report, Inr (- 1))"
    by (simp add: run_coloc_def run_with_invalid)
next
  fix im s
  assume "Some im \<in> set images \<and> s \<in> set (selectors p) \<and> find_channel_index im s < 0"
  then show "channel_error im s \<in> set report"
    using channel_error_reported [of im images s "selectors p"]
    by (simp add: assms(4) check_parameters_coloc_report)
next
  assume "Maximum_shift p \<le> Minimum_shift p"
  then show "shift_error (Maximum_shift p) (Minimum_shift p) \<in> set report"
    by (simp add: assms(4) check_parameters_coloc_report)
next
  assume "\<not> Upload_results p \<and> \<not> Email_results p"
  then show "''ERROR: No results option selected'' \<in> set report"
    by (simp add: assms(4) check_parameters_coloc_report)
next
  assume "\<not> Upload_results q \<and> \<not> Email_results q"
  then have "check_parameters_corr (selected_images d q) q
      = ([''ERROR: No results option selected''], False)"
    by (simp add: check_parameters_corr_def)
  with assms(2) show "run_corr d q = ([Print ''ERROR: No results option selected''], Inr (- 1))"
    by (simp add: run_corr_def run_with_invalid)
qed

theorem validation_failure_reports_every_violation_witness:
  "run_coloc
     (example_conn [Some (example_image 42 [''c1'', ''c2'']), Some (example_image 43 [''c1''])]
        [] (Exited 0 []) True)
     (example_coloc_params [42, 43] ''c7'' 9 9 False)
   = ([Print ''ERROR: Image 42: a.tif does not have channel: c7'',
       Print ''ERROR: Image 43: a.tif does not have channel: c7'',
       Print ''ERROR: Image 43: a.tif does not have channel: 2'',
       Print ''ERROR: Maximum shift (9) is not greater than minimum shift (9)'',
       Print ''ERROR: No results option selected''], Inr (- 1))
   \<and> run_corr
     (example_conn [Some (example_image 42 [''c1'', ''c2''])] [] (Exited 0 []) True)
     (example_corr_params [42] False)
   = ([Print ''ERROR: No results option selected''], Inr (- 1))"
proof -
  let ?c = "example_conn [Some (example_image 42 [''c1'', ''c2'']),
      Some (example_image 43 [''c1''])] [] (Exited 0 []) True"
  let ?p = "example_coloc_params [42, 43] ''c7'' 9 9 False"
  let ?d = "example_conn [Some (example_image 42 [''c1'', ''c2''])] [] (Exited 0 []) True"
  let ?q = "example_corr_params [42] False"
  have h: "IDs ?p \<noteq> []" "IDs ?q \<noteq> []" by code_simp+
  have v: "Maximum_shift ?p \<le> Minimum_shift ?p" "\<not> Upload_results ?q \<and> \<not> Email_results ?q"
    by code_simp+
  have r: "map Print (fst (check_parameters_coloc (selected_images ?c ?p) ?p))
      = [Print ''ERROR: Image 42: a.tif does not have channel: c7'',
         Print ''ERROR: Image 43: a.tif does not have channel: c7'',
         Print ''ERROR: Image 43: a.tif does not have channel: 2'',
         Print ''ERROR: Maximum shift (9) is not greater than minimum shift (9)'',
         Print ''ERROR: No results option selected'']"
    by code_simp
  from validation_failure_reports_every_violation [OF h refl refl, of ?c ?d] v
  show ?thesis unfolding r by blast
qed

theorem empty_id_list_counterexample:
  "run_coloc
     (example_conn [Some (example_image 42 [''c1'', ''c2''])] [] (Exited 0 []) True)
     (example_coloc_params [] ''c1'' 9 9 True)
   = ([], Inr (- 1))
   \<and> Maximum_shift (example_coloc_params [] ''c1'' 9 9 True)
       \<le> Minimum_shift (example_coloc_params [] ''c1'' 9 9 True)"
  by code_simp

text \<open>
  C6. The pattern of \<open>validate_email\<close> has an unescaped dot before the final letters,
  which matches any character: the address \<open>user@examplecom\<close>, with no dot after the
  \<open>@\<close>, is accepted.
\<close>

theorem validate_email_accepts_domain_without_dot:
  "validate_email
     \<lparr>IDs = [42], Data_Type = ''Image'', Method = ''Otsu'', Upload_results = False,
      Email_results = True, Email = Some ''user@examplecom''\<rparr> None
   \<and> email_match ''user@examplecom''
   \<and> CHR ''.'' \<notin> set ''examplecom''"
  by code_simp

section \<open>Claims about the run\<close>

lemma extract_results_coloc_distinct: "distinct (map fst (extract_results_coloc out))"
  using coloc_fold_distinct [of coloc_init out]
  by (simp add: extract_results_coloc_def coloc_finish_def coloc_init_def distinct_update)

lemma extract_results_corr_distinct: "distinct (map fst (extract_results_corr out))"
  using corr_fold_distinct [of corr_init out]
  by (simp add: extract_results_corr_def corr_finish_def corr_init_def distinct_update)

text \<open>
  The value of a run. A run with an empty id list or with parameters that fail the
  check returns \<open>-1\<close>. Whenever a run returns a value \<open>n\<close>, \<open>n\<close> is \<open>-1\<close> exactly in
  those two cases, and otherwise \<open>n\<close> is not negative and is the number of entries of
  the dictionary that \<open>run_imagej\<close> returned, whose keys are distinct. And a run that
  passes the check and in which the export, \<open>run_imagej\<close>, the distribution and
  \<open>os.rmdir\<close> raise nothing does return that number. This holds for the
  colocalisation run (\<open>c\<close>, \<open>p\<close>) and the correlation run (\<open>d\<close>, \<open>q\<close>).
\<close>

lemma run_return_value:
  "(IDs p0 = [] \<or> \<not> snd (check_parameters_coloc (selected_images c0 p0) p0)
      \<longrightarrow> snd (run_coloc c0 p0) = Inr (- 1))
   \<and> (snd (run_coloc c p) = Inr n \<longrightarrow>
        (n = - 1 \<longleftrightarrow> IDs p = [] \<or> \<not> snd (check_parameters_coloc (selected_images c p) p))
      \<and> (n \<noteq> - 1 \<longrightarrow> 0 \<le> n \<and> (\<exists>names res.
            snd (extract_images c (selected_images c p)) = Inr names
          \<and> snd (run_imagej (coloc_macro (selected_images c p) p) extract_results_coloc c names)
              = Inr res
          \<and> distinct (map fst res) \<and> n = int (length res))))
   \<and> (IDs p \<noteq> [] \<and> snd (check_parameters_coloc (selected_images c p) p)
        \<and> snd (extract_images c (selected_images c p)) = Inr names
        \<and> snd (run_imagej (coloc_macro (selected_images c p) p) extract_results_coloc c names)
            = Inr res
        \<and> snd (distribute c (create_result_name_coloc p) res names p) = Inr ()
        \<and> rmdir_succeeds c
      \<longrightarrow> snd (run_coloc c p) = Inr (int (length res)))
   \<and> (IDs q0 = [] \<or> \<not> snd (check_parameters_corr (selected_images d0 q0) q0)
      \<longrightarrow> snd (run_corr d0 q0) = Inr (- 1))
   \<and> (snd (run_corr d q) = Inr m \<longrightarrow>
        (m = - 1 \<longleftrightarrow> IDs q = [] \<or> \<not> snd (check_parameters_corr (selected_images d q) q))
      \<and> (m \<noteq> - 1 \<longrightarrow> 0 \<le> m \<and> (\<exists>names res.
            snd (extract_images d (selected_images d q)) = Inr names
          \<and> snd (run_imagej (corr_macro (selected_images d q) q) extract_results_corr d names)
              = Inr res
          \<and> distinct (map fst res) \<and> m = int (length res))))
   \<and> (IDs q \<noteq> [] \<and> snd (check_parameters_corr (selected_images d q) q)
        \<and> snd (extract_images d (selected_images d q)) = Inr names'
        \<and> snd (run_imagej (corr_macro (selected_images d q) q) extract_results_corr d names')
            = Inr res'
        \<and> snd (distribute d (create_result_name_corr q) res' names' q) = Inr ()
        \<and> rmdir_succeeds d
      \<longrightarrow> snd (run_corr d q) = Inr (int (length res')))"
proof (intro conjI impI)
  show "snd (run_coloc c0 p0) = Inr (- 1)"
    if "IDs p0 = [] \<or> \<not> snd (check_parameters_coloc (selected_images c0 p0) p0)"
    using that by (auto simp: run_coloc_def run_with_def Let_def)
  show "snd (run_corr d0 q0) = Inr (- 1)"
    if "IDs q0 = [] \<or> \<not> snd (check_parameters_corr (selected_images d0 q0) q0)"
    using that by (auto simp: run_corr_def run_with_def Let_def)
next
  assume r: "snd (run_coloc c p) = Inr n"
  note R = run_with_returns [OF r [unfolded run_coloc_def]]
  show "n = - 1 \<longleftrightarrow> IDs p = [] \<or> \<not> snd (check_parameters_coloc (selected_images c p) p)"
    using R by blast
  show "0 \<le> n" if "n \<noteq> - 1" using R that by auto
  show "\<exists>names res.
            snd (extract_images c (selected_images c p)) = Inr names
          \<and> snd (run_imagej (coloc_macro (selected_images c p) p) extract_results_coloc c names)
              = Inr res
          \<and> distinct (map fst res) \<and> n = int (length res)" if "n \<noteq> - 1"
  proof -
    from R that obtain names res where
      nr: "snd (extract_images c (selected_images c p)) = Inr names"
        "snd (run_imagej (coloc_macro (selected_images c p) p) extract_results_coloc c names)
          = Inr res"
        "n = int (length res)"
      by blast
    from run_imagej_results [OF nr(2)] have "distinct (map fst res)"
      by (auto simp: extract_results_coloc_distinct)
    with nr show ?thesis by blast
  qed
next
  assume r: "snd (run_corr d q) = Inr m"
  note R = run_with_returns [OF r [unfolded run_corr_def]]
  show "m = - 1 \<longleftrightarrow> IDs q = [] \<or> \<not> snd (check_parameters_corr (selected_images d q) q)"
    using R by blast
  show "0 \<le> m" if "m \<noteq> - 1" using R that by auto
  show "\<exists>names res.
            snd (extract_images d (selected_images d q)) = Inr names
          \<and> snd (run_imagej (corr_macro (selected_images d q) q) extract_results_corr d names)
              = Inr res
          \<and> distinct (map fst res) \<and> m = int (length res)" if "m \<noteq> - 1"
  proof -
    from R that obtain names res where
      nr: "snd (extract_images d (selected_images d q)) = Inr names"
        "snd (run_imagej (corr_macro (selected_images d q) q) extract_results_corr d names)
          = Inr res"
        "m = int (length res)"
      by blast
    from run_imagej_results [OF nr(2)] have "distinct (map fst res)"
      by (auto simp: extract_results_corr_distinct)
    with nr show ?thesis by blast
  qed
next
  assume a: "IDs p \<noteq> [] \<and> snd (check_parameters_coloc (selected_images c p) p)
        \<and> snd (extract_images c (selected_images c p)) = Inr names
        \<and> snd (run_imagej (coloc_macro (selected_images c p) p) extract_results_coloc c names)
            = Inr res
        \<and> snd (distribute c (create_result_name_coloc p) res names p) = Inr ()
        \<and> rmdir_succeeds c"
  then show "snd (run_coloc c p) = Inr (int (length res))"
    unfolding run_coloc_def
    by (simp add: run_with_completed [where names = names and res = res and u = "()"])
next
  assume a: "IDs q \<noteq> [] \<and> snd (check_parameters_corr (selected_images d q) q)
        \<and> snd (extract_images d (selected_images d q)) = Inr names'
        \<and> snd (run_imagej (corr_macro (selected_images d q) q) extract_results_corr d names')
            = Inr res'
        \<and> snd (distribute d (create_result_name_corr q) res' names' q) = Inr ()
        \<and> rmdir_succeeds d"
  then show "snd (run_corr d q) = Inr (int (length res'))"
    unfolding run_corr_def
    by (simp add: run_with_completed [where names = names' and res = res' and u = "()"])
qed

lemma run_return_value_example:
  "snd (run_coloc
      (example_conn [Some (example_image 42 [''c1'', ''c2''])] [] (Exited 0 []) True)
      (example_coloc_params [] ''c1'' 9 16 True)) = Inr (- 1)
   \<and> snd (run_coloc
      (example_conn [Some (example_image 42 [''c1'', ''c2''])] []
        (Exited 0 [''Image,p,Method,Frame\<newline>'', ''42.ome.tif,0.05,Otsu,1\<newline>'']) True)
      (example_coloc_params [42] ''c1'' 9 16 True)) = Inr 1
   \<and> snd (run_corr
      (example_conn [Some (example_image 42 [''c1'', ''c2''])] [] (Exited 0 []) True)
      (example_corr_params [42] False)) = Inr (- 1)
   \<and> snd (run_corr
      (example_conn [Some (example_image 42 [''c1'', ''c2''])] [] (Exited 0 []) True)
      (example_corr_params [42] True)) = Inr 0"
proof -
  let ?ce = "example_conn [Some (example_image 42 [''c1'', ''c2''])] [] (Exited 0 []) True"
  let ?pe = "example_coloc_params [] ''c1'' 9 16 True"
  let ?c = "example_conn [Some (example_image 42 [''c1'', ''c2''])] []
        (Exited 0 [''Image,p,Method,Frame\<newline>'', ''42.ome.tif,0.05,Otsu,1\<newline>'']) True"
  let ?p = "example_coloc_params [42] ''c1'' 9 16 True"
  let ?qe = "example_corr_params [42] False"
  let ?q = "example_corr_params [42] True"
  let ?names = "[''/tmp/job/42.ome.tif'']"
  let ?res = "[(42 :: int, ''p,Method,Frame\<newline>0.05,Otsu,1'')]"
  have a0: "IDs ?pe = []" by code_simp
  have b0: "\<not> snd (check_parameters_corr (selected_images ?ce ?qe) ?qe)" by code_simp
  have a1: "IDs ?p \<noteq> []" by code_simp
  have a2: "snd (check_parameters_coloc (selected_images ?c ?p) ?p)" by code_simp
  have a3: "snd (extract_images ?c (selected_images ?c ?p)) = Inr ?names" by code_simp
  have a4: "snd (run_imagej (coloc_macro (selected_images ?c ?p) ?p) extract_results_coloc
      ?c ?names) = Inr ?res"
    by code_simp
  have a5: "snd (distribute ?c (create_result_name_coloc ?p) ?res ?names ?p) = Inr ()"
    by code_simp
  have a6: "rmdir_succeeds ?c" by code_simp
  have b1: "IDs ?q \<noteq> []" by code_simp
  have b2: "snd (check_parameters_corr (selected_images ?ce ?q) ?q)" by code_simp
  have b3: "snd (extract_images ?ce (selected_images ?ce ?q)) = Inr ?names" by code_simp
  have b4: "snd (run_imagej (corr_macro (selected_images ?ce ?q) ?q) extract_results_corr
      ?ce ?names) = Inr []"
    by code_simp
  have b5: "snd (distribute ?ce (create_result_name_corr ?q) [] ?names ?q) = Inr ()"
    by code_simp
  have b6: "rmdir_succeeds ?ce" by code_simp
  from run_return_value
    [where ?p0.0 = ?pe and ?c0.0 = ?ce and c = ?c and p = ?p and names = ?names and res = ?res
       and ?q0.0 = ?qe and ?d0.0 = ?ce and d = ?ce and q = ?q and names' = ?names
       and res' = "[]" and n = 1 and m = 0]
    a0 b0 a1 a2 a3 a4 a5 a6 b1 b2 b3 b4 b5 b6
  show ?thesis by simp
qed

text \<open>
  C3. The count that a run returns is the number of entries of the dictionary, and
  the colocalisation loop stores an entry under key 0, which is no image: on the
  sample output the row lines begin with \<open>3.tif,\<close> and are no data rows, the first
  of them closes the block of the header line and the column names are stored under
  the image id 0. The run of image 1851 on this output returns 1, although no image
  has a block and nothing is attached.
\<close>

theorem run_counts_entry_of_no_image:
  "extract_results_coloc sample_output
     = [(0, ''p,Method,Frame,Ch1,Ch2,Ch3,n,Area,M1,Sig,M2,Sig,R,Sig'')]
   \<and> map_of (extract_results_coloc sample_output) 1851 = None
   \<and> run_coloc
        (example_conn [Some (example_image 1851 [''c1'', ''c2''])] [] (Exited 0 sample_output)
           True)
        (example_coloc_params [1851] ''c1'' 9 16 True)
     = ([Mkdtemp, Export 1851, CloseExporter 1851,
         WriteMacro (coloc_command ''/tmp/job/1851.ome.tif''
           (example_image 1851 [''c1'', ''c2''])
           (coloc_args (example_coloc_params [1851] ''c1'' 9 16 True))
           (coloc_channels 0 1 (- 1))),
         Invoke, RemoveFiles, Rmdir],
        Inr 1)"
  by code_simp

text \<open>
  C7 (as amended). In the export step an entry \<open>None\<close> of the image list is skipped
  and the other images are still exported: the export of a list is the export of its
  images that are not \<open>None\<close>, and when each of them can be exported every one is, in
  the order of the list. An export that raises is not handled per image: the
  exporter of that image is closed, the images after it are not exported, and a run
  that passed the parameter check ends with that exception. (The statement is about
  \<open>extract_images\<close>; what the later steps of a run do with a list that holds
  \<open>None\<close> is not part of it.)
\<close>

theorem export_skips_none_and_stops_at_error:
  "extract_images c images = extract_images c (map Some (present images))
   \<and> (list_all (\<lambda>img. export_succeeds c (getId img)) (present images) \<longrightarrow>
        extract_images c images =
          (Mkdtemp # concat (map exported (present images)),
           Inr (map (image_file c) (present images))))
   \<and> (list_all (\<lambda>img. export_succeeds c (getId img)) (present pre)
        \<and> \<not> export_succeeds c (getId img) \<longrightarrow>
        extract_images c (pre @ Some img # post) =
          (Mkdtemp # concat (map exported (present pre)) @ [CloseExporter (getId img)],
           Inl ExportError))
   \<and> (IDs p \<noteq> [] \<and> snd (check_parameters_coloc (selected_images c p) p)
        \<and> snd (extract_images c (selected_images c p)) = Inl e \<longrightarrow>
        snd (run_coloc c p) = Inl e)
   \<and> (IDs q \<noteq> [] \<and> snd (check_parameters_corr (selected_images c q) q)
        \<and> snd (extract_images c (selected_images c q)) = Inl e' \<longrightarrow>
        snd (run_corr c q) = Inl e')"
proof (intro conjI impI)
  show "extract_images c images = extract_images c (map Some (present images))"
    using export_each_present [of c images] by (simp add: extract_images_def)
  show "extract_images c images =
          (Mkdtemp # concat (map exported (present images)),
           Inr (map (image_file c) (present images)))"
    if "list_all (\<lambda>img. export_succeeds c (getId img)) (present images)"
    using export_each_all [OF that] by (simp add: extract_images_def bind_io_def)
  show "extract_images c (pre @ Some img # post) =
          (Mkdtemp # concat (map exported (present pre)) @ [CloseExporter (getId img)],
           Inl ExportError)"
    if "list_all (\<lambda>img. export_succeeds c (getId img)) (present pre)
        \<and> \<not> export_succeeds c (getId img)"
    using export_each_stops [of c pre img post] that
    by (simp add: extract_images_def bind_io_def)
  show "snd (run_coloc c p) = Inl e"
    if "IDs p \<noteq> [] \<and> snd (check_parameters_coloc (selected_images c p) p)
        \<and> snd (extract_images c (selected_images c p)) = Inl e"
    using that unfolding run_coloc_def by (simp add: run_with_export_error)
  show "snd (run_corr c q) = Inl e'"
    if "IDs q \<noteq> [] \<and> snd (check_parameters_corr (selected_images c q) q)
        \<and> snd (extract_images c (selected_images c q)) = Inl e'"
    using that unfolding run_corr_def by (simp add: run_with_export_error)
qed

theorem export_skips_none_and_stops_at_error_witness:
  "extract_images
     (example_conn [] [] (Exited 0 []) True)
     [Some (example_image 41 [''c1'', ''c2'']), None, Some (example_image 43 [''c1'', ''c2''])]
   = ([Mkdtemp, Export 41, CloseExporter 41, Export 43, CloseExporter 43],
      Inr [''/tmp/job/41.ome.tif'', ''/tmp/job/43.ome.tif''])
   \<and> extract_images
     (example_conn [Some (example_image 41 [''c1'', ''c2'']), Some (example_image 42 [''c1'', ''c2'']),
        Some (example_image 43 [''c1'', ''c2''])] [42] (Exited 0 []) True)
     ([Some (example_image 41 [''c1'', ''c2''])] @ Some (example_image 42 [''c1'', ''c2''])
        # [Some (example_image 43 [''c1'', ''c2''])])
   = ([Mkdtemp, Export 41, CloseExporter 41, CloseExporter 42], Inl ExportError)
   \<and> snd (run_coloc
      (example_conn [Some (example_image 41 [''c1'', ''c2'']), Some (example_image 42 [''c1'', ''c2'']),
        Some (example_image 43 [''c1'', ''c2''])] [42] (Exited 0 []) True)
      (example_coloc_params [41, 42, 43] ''c1'' 9 16 True)) = Inl ExportError
   \<and> snd (run_corr
      (example_conn [Some (example_image 41 [''c1'', ''c2'']), Some (example_image 42 [''c1'', ''c2'']),
        Some (example_image 43 [''c1'', ''c2''])] [42] (Exited 0 []) True)
      (example_corr_params [41, 42, 43] True)) = Inl ExportError"
proof -
  let ?i1 = "example_image 41 [''c1'', ''c2'']"
  let ?i2 = "example_image 42 [''c1'', ''c2'']"
  let ?i3 = "example_image 43 [''c1'', ''c2'']"
  let ?c = "example_conn [Some ?i1, Some ?i2, Some ?i3] [42] (Exited 0 []) True"
  let ?c1 = "example_conn [] [] (Exited 0 []) True"
  let ?p = "example_coloc_params [41, 42, 43] ''c1'' 9 16 True"
  let ?q = "example_corr_params [41, 42, 43] True"
  have a: "list_all (\<lambda>img. export_succeeds ?c1 (getId img)) (present [Some ?i1, None, Some ?i3])"
    by code_simp
  have a': "(Mkdtemp # concat (map exported (present [Some ?i1, None, Some ?i3])),
      Inr (map (image_file ?c1) (present [Some ?i1, None, Some ?i3])) :: exn + string list)
    = ([Mkdtemp, Export 41, CloseExporter 41, Export 43, CloseExporter 43],
       Inr [''/tmp/job/41.ome.tif'', ''/tmp/job/43.ome.tif''])"
    by code_simp
  have b: "list_all (\<lambda>img. export_succeeds ?c (getId img)) (present [Some ?i1])
      \<and> \<not> export_succeeds ?c (getId ?i2)"
    by code_simp
  have b': "(Mkdtemp # concat (map exported (present [Some ?i1])) @ [CloseExporter (getId ?i2)],
      Inl ExportError :: exn + string list)
    = ([Mkdtemp, Export 41, CloseExporter 41, CloseExporter 42], Inl ExportError)"
    by code_simp
  have d: "IDs ?p \<noteq> [] \<and> snd (check_parameters_coloc (selected_images ?c ?p) ?p)
      \<and> snd (extract_images ?c (selected_images ?c ?p)) = Inl ExportError"
    by code_simp
  have e: "IDs ?q \<noteq> [] \<and> snd (check_parameters_corr (selected_images ?c ?q) ?q)
      \<and> snd (extract_images ?c (selected_images ?c ?q)) = Inl ExportError"
    by code_simp
  note T1 = export_skips_none_and_stops_at_error
    [where c = ?c1 and images = "[Some ?i1, None, Some ?i3]"]
  note T2 = export_skips_none_and_stops_at_error
    [where c = ?c and pre = "[Some ?i1]" and img = ?i2 and post = "[Some ?i3]"
       and p = ?p and q = ?q and e = ExportError and e' = ExportError]
  have "extract_images ?c1 [Some ?i1, None, Some ?i3]
      = ([Mkdtemp, Export 41, CloseExporter 41, Export 43, CloseExporter 43],
         Inr [''/tmp/job/41.ome.tif'', ''/tmp/job/43.ome.tif''])"
    using T1 a unfolding a' by blast
  moreover have "extract_images ?c ([Some ?i1] @ Some ?i2 # [Some ?i3])
      = ([Mkdtemp, Export 41, CloseExporter 41, CloseExporter 42], Inl ExportError)"
    using T2 b unfolding b' by blast
  moreover have "snd (run_coloc ?c ?p) = Inl ExportError" using T2 d by blast
  moreover have "snd (run_corr ?c ?q) = Inl ExportError" using T2 e by blast
  ultimately show ?thesis by blast
qed

theorem export_error_aborts_counterexample:
  "extract_images
     (example_conn [Some (example_image 42 [''c1'', ''c2'']), Some (example_image 43 [''c1'', ''c2''])]
        [42] (Exited 0 []) True)
     [Some (example_image 42 [''c1'', ''c2'']), Some (example_image 43 [''c1'', ''c2''])]
   = ([Mkdtemp, CloseExporter 42], Inl ExportError)
   \<and> run_corr
     (example_conn [Some (example_image 42 [''c1'', ''c2'']), Some (example_image 43 [''c1'', ''c2''])]
        [42] (Exited 0 []) True)
     (example_corr_params [42, 43] True)
   = ([Mkdtemp, CloseExporter 42], Inl ExportError)"
  by code_simp

text \<open>
  C8 (as amended). In a colocalisation run that passes the parameter check and in
  which the export, the macro loop and the distribution raise nothing, the removal
  of the temporary files is attempted after the ImageJ process whatever the process
  did (a launch error and a non-zero exit code included), and the removal of the
  temporary directory is attempted as the last step of the run. (When the export,
  the macro loop or the distribution raises, the run ends there and removes nothing
  more.)
\<close>

theorem teardown_after_process:
  "(names \<noteq> [] \<and> coloc_macro images p names = Inr blocks \<longrightarrow>
      run_imagej (coloc_macro images p) extract_results_coloc c names =
        ([WriteMacro (concat blocks)]
           @ fst (run_process extract_results_coloc c (concat blocks)) @ [RemoveFiles],
         Inr (snd (run_process extract_results_coloc c (concat blocks)))))
   \<and> (IDs p \<noteq> [] \<and> snd (check_parameters_coloc (selected_images c p) p)
        \<and> snd (extract_images c (selected_images c p)) = Inr ns
        \<and> snd (run_imagej (coloc_macro (selected_images c p) p) extract_results_coloc c ns)
            = Inr res
        \<and> snd (distribute c (create_result_name_coloc p) res ns p) = Inr ()
      \<longrightarrow> last (fst (run_coloc c p)) = Rmdir)
   \<and> (IDs p \<noteq> [] \<and> snd (check_parameters_coloc (selected_images c p) p)
        \<and> snd (extract_images c (selected_images c p)) = Inr ns \<and> ns \<noteq> []
        \<and> coloc_macro (selected_images c p) p ns = Inr bs
        \<and> (imagej c (concat bs) = LaunchFailed
            \<or> (\<exists>code out. imagej c (concat bs) = Exited code out \<and> code \<noteq> 0))
      \<longrightarrow> (\<exists>t. fst (run_coloc c p) =
            t @ [RemoveFiles,
                 Print (''ERROR: No results generated for '' @ str_nat (length ns) @ '' images''),
                 Rmdir]))"
proof (intro conjI impI)
  show "run_imagej (coloc_macro images p) extract_results_coloc c names =
        ([WriteMacro (concat blocks)]
           @ fst (run_process extract_results_coloc c (concat blocks)) @ [RemoveFiles],
         Inr (snd (run_process extract_results_coloc c (concat blocks))))"
    if "names \<noteq> [] \<and> coloc_macro images p names = Inr blocks"
    using that by (simp add: run_imagej_removes_files)
next
  assume a: "IDs p \<noteq> [] \<and> snd (check_parameters_coloc (selected_images c p) p)
        \<and> snd (extract_images c (selected_images c p)) = Inr ns
        \<and> snd (run_imagej (coloc_macro (selected_images c p) p) extract_results_coloc c ns)
            = Inr res
        \<and> snd (distribute c (create_result_name_coloc p) res ns p) = Inr ()"
  then show "last (fst (run_coloc c p)) = Rmdir"
    unfolding run_coloc_def
    by (simp add: run_with_completed [where names = ns and res = res and u = "()"])
next
  assume a: "IDs p \<noteq> [] \<and> snd (check_parameters_coloc (selected_images c p) p)
        \<and> snd (extract_images c (selected_images c p)) = Inr ns \<and> ns \<noteq> []
        \<and> coloc_macro (selected_images c p) p ns = Inr bs
        \<and> (imagej c (concat bs) = LaunchFailed
            \<or> (\<exists>code out. imagej c (concat bs) = Exited code out \<and> code \<noteq> 0))"
  let ?images = "selected_images c p"
  let ?rp = "run_process extract_results_coloc c (concat bs)"
  have res: "snd ?rp = []"
    using a by (intro run_process_failed) blast
  have ij: "run_imagej (coloc_macro ?images p) extract_results_coloc c ns =
      ([WriteMacro (concat bs)] @ fst ?rp @ [RemoveFiles], Inr [])"
    using a res by (simp add: run_imagej_removes_files)
  have di: "distribute c (create_result_name_coloc p) [] ns p =
      ([Print (''ERROR: No results generated for '' @ str_nat (length ns) @ '' images'')], Inr ())"
    using a by (simp add: distribute_def no_results_def)
  have "fst (run_coloc c p) =
      (map Print (fst (check_parameters_coloc ?images p)) @ fst (extract_images c ?images)
         @ [WriteMacro (concat bs)] @ fst ?rp)
      @ [RemoveFiles,
         Print (''ERROR: No results generated for '' @ str_nat (length ns) @ '' images''),
         Rmdir]"
    unfolding run_coloc_def using a ij di
    by (simp add: run_with_completed [where names = ns and res = "[]" and u = "()"])
  then show "\<exists>t. fst (run_coloc c p) =
            t @ [RemoveFiles,
                 Print (''ERROR: No results generated for '' @ str_nat (length ns) @ '' images''),
                 Rmdir]"
    by blast
qed

theorem teardown_after_process_witness:
  "fst (run_coloc
      (example_conn [Some (example_image 42 [''c1'', ''c2''])] [] (Exited 3 []) True)
      (example_coloc_params [42] ''c1'' 9 16 True))
   = [Mkdtemp, Export 42, CloseExporter 42,
      WriteMacro (coloc_command ''/tmp/job/42.ome.tif'' (example_image 42 [''c1'', ''c2''])
        (coloc_args (example_coloc_params [42] ''c1'' 9 16 True)) (coloc_channels 0 1 (- 1))),
      Invoke, Stderr ''Execution failed with code: 3'', RemoveFiles,
      Print ''ERROR: No results generated for 1 images'', Rmdir]
   \<and> last (fst (run_coloc
      (example_conn [Some (example_image 42 [''c1'', ''c2''])] [] (Exited 3 []) True)
      (example_coloc_params [42] ''c1'' 9 16 True))) = Rmdir
   \<and> (\<exists>t. fst (run_coloc
      (example_conn [Some (example_image 42 [''c1'', ''c2''])] [] (Exited 3 []) True)
      (example_coloc_params [42] ''c1'' 9 16 True))
        = t @ [RemoveFiles, Print (''ERROR: No results generated for ''
                 @ str_nat (length [''/tmp/job/42.ome.tif'']) @ '' images''), Rmdir])"
proof -
  let ?im = "example_image 42 [''c1'', ''c2'']"
  let ?c = "example_conn [Some ?im] [] (Exited 3 []) True"
  let ?p = "example_coloc_params [42] ''c1'' 9 16 True"
  let ?ns = "[''/tmp/job/42.ome.tif'']"
  let ?bs = "[coloc_command ''/tmp/job/42.ome.tif'' ?im (coloc_args ?p) (coloc_channels 0 1 (- 1))]"
  have a1: "IDs ?p \<noteq> []" by code_simp
  have a2: "snd (check_parameters_coloc (selected_images ?c ?p) ?p)" by code_simp
  have a3: "snd (extract_images ?c (selected_images ?c ?p)) = Inr ?ns" by code_simp
  have a4: "?ns \<noteq> []" by simp
  have a5: "coloc_macro (selected_images ?c ?p) ?p ?ns = Inr ?bs" by code_simp
  have a6: "imagej ?c (concat ?bs) = Exited 3 [] \<and> (3::int) \<noteq> 0"
    by (simp add: example_conn_def)
  have a7: "snd (run_imagej (coloc_macro (selected_images ?c ?p) ?p) extract_results_coloc ?c ?ns)
      = Inr []"
    by code_simp
  have a8: "snd (distribute ?c (create_result_name_coloc ?p) [] ?ns ?p) = Inr ()"
    by code_simp
  have tr: "fst (run_coloc ?c ?p)
      = [Mkdtemp, Export 42, CloseExporter 42, WriteMacro (concat ?bs),
         Invoke, Stderr ''Execution failed with code: 3'', RemoveFiles,
         Print ''ERROR: No results generated for 1 images'', Rmdir]"
    by code_simp
  note T = teardown_after_process
    [where c = ?c and p = ?p and ns = ?ns and bs = ?bs and res = "[]"
       and images = "selected_images ?c ?p" and names = ?ns and blocks = ?bs]
  have "last (fst (run_coloc ?c ?p)) = Rmdir"
    using T a1 a2 a3 a7 a8 by blast
  moreover have "\<exists>t. fst (run_coloc ?c ?p)
        = t @ [RemoveFiles, Print (''ERROR: No results generated for ''
                 @ str_nat (length ?ns) @ '' images''), Rmdir]"
    using T a1 a2 a3 a4 a5 a6 by blast
  ultimately show ?thesis using tr by simp
qed

theorem no_teardown_after_export_error_counterexample:
  "snd (check_parameters_coloc
      [Some (example_image 42 [''c1'', ''c2'']), Some (example_image 43 [''c1'', ''c2''])]
      (example_coloc_params [42, 43] ''c1'' 9 16 True))
   \<and> run_coloc
     (example_conn [Some (example_image 42 [''c1'', ''c2'']), Some (example_image 43 [''c1'', ''c2''])]
        [42] (Exited 0 []) True)
     (example_coloc_params [42, 43] ''c1'' 9 16 True)
   = ([Mkdtemp, CloseExporter 42], Inl ExportError)
   \<and> snd (run_coloc
     (example_conn [Some (example_image 42 [''c1'', ''c2''])] [] (Exited 3 []) False)
     (example_coloc_params [42] ''c1'' 9 16 True))
   = Inl OSError"
  by code_simp

text \<open>
  When no entry of the image list is \<open>None\<close> the positions of the file names and of
  the images agree, and the correlation macro has for every image the command block
  with that image's own file and dimensions.
\<close>

lemma corr_blocks_aligned:
  "i + length names \<le> length imgs \<Longrightarrow>
   corr_blocks (map Some imgs) args i names =
     Inr (map (\<lambda>(name, img). corr_command name img args) (zip names (drop i imgs)))"
proof (induction names arbitrary: i)
  case Nil
  then show ?case by simp
next
  case (Cons name names)
  then have i: "i < length imgs" and rest: "Suc i + length names \<le> length imgs" by simp_all
  have d: "drop i imgs = imgs ! i # drop (Suc i) imgs"
    using i by (simp add: Cons_nth_drop_Suc)
  show ?case
    using Cons.IH [OF rest] i by (simp add: d)
qed

lemma corr_macro_aligned:
  "list_all (\<lambda>img. export_succeeds c (getId img)) imgs \<Longrightarrow>
   snd (extract_images c (map Some imgs)) = Inr (map (image_file c) imgs)
   \<and> corr_macro (map Some imgs) p (map (image_file c) imgs) =
       Inr (map (\<lambda>img. corr_command (image_file c img) img (corr_args p)) imgs)"
proof
  assume a: "list_all (\<lambda>img. export_succeeds c (getId img)) imgs"
  have pr: "present (map Some imgs) = imgs"
    by (induction imgs) (simp_all add: present_def)
  show "snd (extract_images c (map Some imgs)) = Inr (map (image_file c) imgs)"
    using export_each_all [of c "map Some imgs"] a
    by (simp add: pr extract_images_def bind_io_def)
  have "corr_macro (map Some imgs) p (map (image_file c) imgs) =
      Inr (map (\<lambda>(name, img). corr_command name img (corr_args p))
             (zip (map (image_file c) imgs) imgs))"
    using corr_blocks_aligned [of 0 "map (image_file c) imgs" imgs "corr_args p"]
    by (simp add: corr_macro_def)
  also have "map (\<lambda>(name, img). corr_command name img (corr_args p))
             (zip (map (image_file c) imgs) imgs)
      = map (\<lambda>img. corr_command (image_file c img) img (corr_args p)) imgs"
    by (induction imgs) simp_all
  finally show "corr_macro (map Some imgs) p (map (image_file c) imgs) =
       Inr (map (\<lambda>img. corr_command (image_file c img) img (corr_args p)) imgs)" .
qed

text \<open>
  C9. The macro loop takes the image of the i-th exported file from position i of the
  image list. When the list holds \<open>None\<close> before an image, the export skips the
  \<open>None\<close> and the positions no longer agree: for the list \<open>[None, image 42]\<close> the
  export gives the one file of image 42, and the macro loop of either script looks
  at position 0, finds \<open>None\<close> and raises \<open>AttributeError\<close>; no command block is
  written for image 42 and the run ends with the exception.
\<close>

theorem macro_loop_fails_after_skipped_image:
  "extract_images
     (example_conn [None, Some (example_image 42 [''c1'', ''c2''])] [] (Exited 0 []) True)
     [None, Some (example_image 42 [''c1'', ''c2''])]
   = ([Mkdtemp, Export 42, CloseExporter 42], Inr [''/tmp/job/42.ome.tif''])
   \<and> corr_macro [None, Some (example_image 42 [''c1'', ''c2''])]
        (example_corr_params [42] True) [''/tmp/job/42.ome.tif'']
     = Inl AttributeError
   \<and> coloc_macro [None, Some (example_image 42 [''c1'', ''c2''])]
        (example_coloc_params [42] ''c1'' 9 16 True) [''/tmp/job/42.ome.tif'']
     = Inl AttributeError
   \<and> run_corr
        (example_conn [None, Some (example_image 42 [''c1'', ''c2''])] [] (Exited 0 []) True)
        (example_corr_params [42] True)
     = ([Mkdtemp, Export 42, CloseExporter 42], Inl AttributeError)
   \<and> run_coloc
        (example_conn [None, Some (example_image 42 [''c1'', ''c2''])] [] (Exited 0 []) True)
        (example_coloc_params [42] ''c1'' 9 16 True)
     = ([Mkdtemp, Export 42, CloseExporter 42], Inl AttributeError)"
  by code_simp

end
